theory Spec2Isabelle
  imports Complex_Main
begin

section \<open>JavaScript numbers\<close>

text \<open>
  The percentages of \<^verbatim>\<open>coverage-calculator.js\<close> are computed on JavaScript numbers,
  that is IEEE 754 binary64 values, and printed with \<^verbatim>\<open>toFixed(2)\<close>. A finite number is
  represented by the rational it denotes. \<open>fl\<close> rounds a rational to the nearest number
  with a 53-bit significand, ties to even; exponent overflow and subnormal numbers are
  outside the model (every operand here is a quotient of two statement counts, a
  product of such a quotient with 100, or a two-decimal numeral).
\<close>

fun floor_log2 :: "nat \<Rightarrow> nat" where
  "floor_log2 n = (if n < 2 then 0 else Suc (floor_log2 (n div 2)))"

declare floor_log2.simps [simp del]

definition ilog2 :: "rat \<Rightarrow> int" where
  \<comment> \<open>the binary exponent of a positive rational: \<open>2 powi ilog2 q \<le> q < 2 powi (ilog2 q + 1)\<close>\<close>
  "ilog2 q = (if 1 \<le> q then int (floor_log2 (nat \<lfloor>q\<rfloor>))
              else (let m = nat \<lceil>1 / q\<rceil> in
                    if m \<le> 1 then 0 else - int (Suc (floor_log2 (m - 1)))))"

definition round_half_even :: "rat \<Rightarrow> int" where
  "round_half_even x =
     (let f = \<lfloor>x\<rfloor>; d = x - of_int f in
      if d < 1 / 2 then f
      else if 1 / 2 < d then f + 1
      else if even f then f else f + 1)"

definition fl_pos :: "rat \<Rightarrow> rat" where
  "fl_pos q = (let k = 52 - ilog2 q in
               of_int (round_half_even (q * 2 powi k)) / 2 powi k)"

definition fl :: "rat \<Rightarrow> rat" where
  "fl q = (if q = 0 then 0 else if q < 0 then - fl_pos (- q) else fl_pos q)"

definition toFixed2 :: "rat \<Rightarrow> int" where
  \<comment> \<open>\<^verbatim>\<open>x.toFixed(2)\<close>: the integer \<open>n\<close> with \<open>n / 100\<close> nearest to \<open>x\<close>, the larger one
      on a tie; the printed text is the two-decimal numeral of \<open>n / 100\<close>\<close>
  "toFixed2 x = \<lfloor>x * 100 + 1 / 2\<rfloor>"

datatype percentage =
    NA            \<comment> \<open>the string \<^verbatim>\<open>'N/A'\<close>\<close>
  | Fixed2 int    \<comment> \<open>an output of \<^verbatim>\<open>toFixed(2)\<close>, by its number of hundredths\<close>

definition percent :: "nat \<Rightarrow> nat \<Rightarrow> percentage" where
  \<comment> \<open>\<^verbatim>\<open>((covered / total) * 100).toFixed(2)\<close>\<close>
  "percent coveredUnits totalUnits =
     Fixed2 (toFixed2 (fl (fl (of_nat coveredUnits / of_nat totalUnits) * 100)))"

fun parseFloat :: "percentage \<Rightarrow> rat option" where
  \<comment> \<open>\<open>None\<close> is NaN\<close>
  "parseFloat NA = None"
| "parseFloat (Fixed2 n) = Some (fl (of_int n / 100))"

fun js_ge :: "rat option \<Rightarrow> rat \<Rightarrow> bool" where
  \<comment> \<open>\<^verbatim>\<open>x >= y\<close> for a finite \<open>y\<close>: false when \<open>x\<close> is NaN\<close>
  "js_ge None y = False"
| "js_ge (Some x) y = (y \<le> x)"

section \<open>JavaScript strings\<close>

definition endsWith :: "string \<Rightarrow> string \<Rightarrow> bool" where
  "endsWith str search =
     (length search \<le> length str \<and> drop (length str - length search) str = search)"

fun str_includes :: "string \<Rightarrow> string \<Rightarrow> bool" where
  \<comment> \<open>\<^verbatim>\<open>str.includes(search)\<close>\<close>
  "str_includes [] search = (search = [])"
| "str_includes (c # cs) search =
     (take (length search) (c # cs) = search \<or> str_includes cs search)"

fun split_on :: "char \<Rightarrow> string \<Rightarrow> string list" where
  \<comment> \<open>\<^verbatim>\<open>str.split(sep)\<close> for a separator of one character\<close>
  "split_on sep [] = [[]]"
| "split_on sep (c # cs) =
     (if c = sep then [] # split_on sep cs
      else (case split_on sep cs of [] \<Rightarrow> [[c]] | w # ws \<Rightarrow> (c # w) # ws))"

fun join :: "string \<Rightarrow> string list \<Rightarrow> string" where
  "join sep [] = []"
| "join sep [w] = w"
| "join sep (w # ws) = w @ sep @ join sep ws"

text \<open>
  \<^verbatim>\<open>trim\<close> removes the white space and the line terminators of the language from both
  ends of a string. A string is its UTF-8 bytes, so each of these characters is the
  byte sequence that encodes it: U+0009 to U+000D, U+0020, U+00A0, U+1680, U+2000 to
  U+200A, U+2028, U+2029, U+202F, U+205F, U+3000 and U+FEFF.
\<close>

definition whiteSpace :: "string list" where
  "whiteSpace =
     [[CHR 0x09], [CHR 0x0A], [CHR 0x0B], [CHR 0x0C], [CHR 0x0D], [CHR 0x20],
      [CHR 0xC2, CHR 0xA0],
      [CHR 0xE1, CHR 0x9A, CHR 0x80],
      [CHR 0xE2, CHR 0x80, CHR 0x80], [CHR 0xE2, CHR 0x80, CHR 0x81],
      [CHR 0xE2, CHR 0x80, CHR 0x82], [CHR 0xE2, CHR 0x80, CHR 0x83],
      [CHR 0xE2, CHR 0x80, CHR 0x84], [CHR 0xE2, CHR 0x80, CHR 0x85],
      [CHR 0xE2, CHR 0x80, CHR 0x86], [CHR 0xE2, CHR 0x80, CHR 0x87],
      [CHR 0xE2, CHR 0x80, CHR 0x88], [CHR 0xE2, CHR 0x80, CHR 0x89],
      [CHR 0xE2, CHR 0x80, CHR 0x8A],
      [CHR 0xE2, CHR 0x80, CHR 0xA8], [CHR 0xE2, CHR 0x80, CHR 0xA9],
      [CHR 0xE2, CHR 0x80, CHR 0xAF],
      [CHR 0xE2, CHR 0x81, CHR 0x9F],
      [CHR 0xE3, CHR 0x80, CHR 0x80],
      [CHR 0xEF, CHR 0xBB, CHR 0xBF]]"

function dropLeading :: "string list \<Rightarrow> string \<Rightarrow> string" where
  \<comment> \<open>removes, as long as there is one, a leading occurrence of one of the sequences\<close>
  "dropLeading ws str =
     (case find (\<lambda>w. w \<noteq> [] \<and> take (length w) str = w) ws of
        None \<Rightarrow> str
      | Some w \<Rightarrow> dropLeading ws (drop (length w) str))"
  by pat_completeness auto
termination
proof (relation "measure (\<lambda>(ws, str). length str)")
  show "wf (measure (\<lambda>(ws, str). length str))" by simp
next
  fix ws :: "string list" and str w :: string
  assume "find (\<lambda>w. w \<noteq> [] \<and> take (length w) str = w) ws = Some w"
  then have w: "w \<noteq> []" "take (length w) str = w" by (auto simp add: find_Some_iff)
  then have "str \<noteq> []" by auto
  with w(1) show "((ws, drop (length w) str), (ws, str)) \<in> measure (\<lambda>(ws, str). length str)"
    by simp
qed

declare dropLeading.simps [simp del]

definition trim :: "string \<Rightarrow> string" where
  "trim str = rev (dropLeading (map rev whiteSpace) (rev (dropLeading whiteSpace str)))"

section \<open>coverage-calculator.js\<close>

subsection \<open>Data\<close>

text \<open>
  An entry of \<^verbatim>\<open>coverage-final.json\<close>: its \<^verbatim>\<open>path\<close> and, when present, the values of
  its statement map \<^verbatim>\<open>s\<close> (\<^verbatim>\<open>Object.values(fileData.s)\<close>, the hit count of each
  statement). The coverage object is kept as the list of its keys and entries in
  property order, so that \<^verbatim>\<open>Object.values\<close> is the list of the entries.
\<close>

record fileData =
  path :: string
  s :: "int list option"

type_synonym coverage = "(string \<times> fileData) list"

definition Object_values :: "coverage \<Rightarrow> fileData list" where
  "Object_values coverage = map snd coverage"

record options =
  global :: bool
  changedFiles :: bool
  coverageFile :: string
  baseBranch :: string
  filePatterns :: string
  sourceDir :: string

record fileDetail =
  fileName :: string
  covered :: nat
  total :: nat
  filePercentage :: percentage

datatype message =
    NoFilesChanged string string
      \<comment> \<open>\<^verbatim>\<open>No ${options.filePatterns} files changed in ${options.sourceDir}\<close>\<close>
  | OverallCoverage nat nat percentage
      \<comment> \<open>\<^verbatim>\<open>Overall coverage for changed files: ${coveredLines}/${totalLines} (${overallPercentage}%)\<close>\<close>

record changedFilesCoverage =
  percentage :: percentage
  totalLines :: nat
  coveredLines :: nat
  files :: "fileDetail list"
  message :: message

datatype status = Passed | Failed

text \<open>
  The markdown report, by the values interpolated into its template: the percentage
  (printed twice), the required threshold, the status, and either the per-file lines
  or the message.
\<close>

record report =
  actual :: percentage
  required :: rat
  reportStatus :: status
  details :: "fileDetail list + message"

text \<open>The lines written to the console, one constructor for each template.\<close>

datatype console =
    CoverageFileNotFound string
  | FailedToParseCoverageFile string
  | FailedToGetChangedFiles string
  | CheckingChangedFiles
  | ListedFile string
  | FileCoverage string nat nat percentage
  | NoCoverageDataFound string
  | GlobalCoverageLine percentage
  | CHANGED_FILES_COVERAGE percentage
  | CHANGED_FILES_DETAILS report
  | COVERAGE_CHECK_FAILED bool
  | Usage

subsection \<open>calculateGlobalCoverage\<close>

definition coveredCount :: "int list \<Rightarrow> nat" where
  \<comment> \<open>\<^verbatim>\<open>statements.filter(count => count > 0).length\<close>\<close>
  "coveredCount statements = length (filter (\<lambda>count. 0 < count) statements)"

fun globalStep :: "fileData \<Rightarrow> nat \<times> nat \<Rightarrow> nat \<times> nat" where
  "globalStep fileData (totalStatements, coveredStatements) =
     (case s fileData of
        Some statements \<Rightarrow>
          (totalStatements + length statements, coveredStatements + coveredCount statements)
      | None \<Rightarrow> (totalStatements, coveredStatements))"

definition globalTotals :: "coverage \<Rightarrow> nat \<times> nat" where
  "globalTotals coverage = fold globalStep (Object_values coverage) (0, 0)"

definition calculateGlobalCoverage :: "coverage \<Rightarrow> percentage" where
  "calculateGlobalCoverage coverage =
     (case globalTotals coverage of
        (totalStatements, coveredStatements) \<Rightarrow>
          if 0 < totalStatements then percent coveredStatements totalStatements
          else Fixed2 0)"

subsection \<open>getChangedFiles\<close>

text \<open>
  \<^verbatim>\<open>execSync\<close> is a parameter: it maps a command line to its standard output, or to
  the message of the error it throws.
\<close>

definition fetchCommand :: "options \<Rightarrow> string" where
  "fetchCommand opts = ''git fetch origin '' @ baseBranch opts @ '':'' @ baseBranch opts"

definition diffCommand :: "options \<Rightarrow> string" where
  "diffCommand opts =
     (let patterns = join ''|'' (map trim (split_on CHR '','' (filePatterns opts)));
          regex = [CHR 0x5C] @ ''.('' @ filter (\<lambda>c. c \<noteq> CHR ''.'') patterns @ '')$''
      in ''git diff --name-only origin/'' @ baseBranch opts @ ''...HEAD | grep -E '' @ [CHR 0x27]
           @ regex @ [CHR 0x27] @ '' | grep '' @ [CHR 0x27] @ ''^'' @ sourceDir opts @ [CHR 0x27]
           @ '' || true'')"

definition getChangedFiles ::
  "options \<Rightarrow> (string \<Rightarrow> string + string) \<Rightarrow> string list \<times> console list" where
  "getChangedFiles opts execSync =
     (case execSync (fetchCommand opts) of
        Inl error \<Rightarrow> ([], [FailedToGetChangedFiles error])
      | Inr _ \<Rightarrow>
          (case execSync (diffCommand opts) of
             Inl error \<Rightarrow> ([], [FailedToGetChangedFiles error])
           | Inr out \<Rightarrow>
               (let changed = trim out
                in (if changed \<noteq> [] then filter (\<lambda>l. l \<noteq> []) (split_on CHR 0x0A changed)
                    else [], []))))"

subsection \<open>The shell behind execSync\<close>

text \<open>
  The two command lines are run by the shell, which is outside the repository. A run of
  \<^verbatim>\<open>git\<close> is what it writes to its two output streams and its exit status. With
  \<^verbatim>\<open>stdio: 'pipe'\<close> the error stream is captured and not shown. \<^verbatim>\<open>execSync\<close> throws when
  the command line ends with a status other than 0 and returns the standard output
  otherwise. The fetch is a single command. The diff is the pipeline
  \<^verbatim>\<open>git diff ... | grep -E ... | grep ... || true\<close>: its output is what the two \<^verbatim>\<open>grep\<close>
  keep of the lines \<^verbatim>\<open>git diff\<close> wrote, and because of \<^verbatim>\<open>|| true\<close> its status is 0
  whatever the status of \<^verbatim>\<open>git diff\<close>. Which lines the two patterns keep is a
  parameter.
\<close>

record gitRun =
  stdout :: string
  stderr :: string
  exitStatus :: nat

definition commandFailed :: "string \<Rightarrow> gitRun \<Rightarrow> string" where
  \<comment> \<open>the message of the error \<^verbatim>\<open>execSync\<close> throws\<close>
  "commandFailed command run = ''Command failed: '' @ command @ [CHR 0x0A] @ stderr run"

definition textLines :: "string \<Rightarrow> string list" where
  \<comment> \<open>the lines of a text, each ended by a line feed or by the end of the text\<close>
  "textLines out =
     (let ls = split_on CHR 0x0A out in if last ls = [] then butlast ls else ls)"

definition grepLines :: "(string \<Rightarrow> bool) \<Rightarrow> string \<Rightarrow> string" where
  \<comment> \<open>the kept lines, each followed by a line feed\<close>
  "grepLines keeps out = concat (map (\<lambda>l. l @ [CHR 0x0A]) (filter keeps (textLines out)))"

definition shell ::
  "options \<Rightarrow> gitRun \<Rightarrow> gitRun \<Rightarrow> (string \<Rightarrow> bool) \<Rightarrow> string \<Rightarrow> string + string" where
  \<comment> \<open>\<^verbatim>\<open>execSync\<close> for a given run of \<^verbatim>\<open>git fetch\<close> and a given run of \<^verbatim>\<open>git diff\<close>\<close>
  "shell opts fetchRun diffRun keeps command =
     (if command = fetchCommand opts then
        (if exitStatus fetchRun = 0 then Inr (stdout fetchRun)
         else Inl (commandFailed command fetchRun))
      else if command = diffCommand opts then Inr (grepLines keeps (stdout diffRun))
      else Inl (''Command failed: '' @ command))"

definition changedOf :: "string \<Rightarrow> string list" where
  \<comment> \<open>the changed files \<open>getChangedFiles\<close> reads from the output of the diff command\<close>
  "changedOf out =
     (let changed = trim out
      in if changed \<noteq> [] then filter (\<lambda>l. l \<noteq> []) (split_on CHR 0x0A changed) else [])"

subsection \<open>calculateChangedFilesCoverage\<close>

text \<open>
  \<^verbatim>\<open>fs.existsSync\<close> and \<^verbatim>\<open>path.resolve\<close> are parameters. The accumulator of the loop
  over the changed files is \<open>(totalLines, coveredLines, fileDetails)\<close> and the lines
  printed so far.
\<close>

definition findFileData :: "(string \<Rightarrow> string) \<Rightarrow> coverage \<Rightarrow> string \<Rightarrow> fileData option" where
  "findFileData resolve coverage f =
     (let absolutePath = resolve f
      in find (\<lambda>data. path data = absolutePath \<or> endsWith (path data) f)
           (Object_values coverage))"

type_synonym changedAcc = "nat \<times> nat \<times> fileDetail list \<times> console list"

fun changedStep ::
  "(string \<Rightarrow> bool) \<Rightarrow> (string \<Rightarrow> string) \<Rightarrow> coverage \<Rightarrow> string \<Rightarrow> changedAcc \<Rightarrow> changedAcc"
where
  "changedStep existsSync resolve coverage f (totalL, coveredL, fileDetails, out) =
     (if existsSync f then
        (case findFileData resolve coverage f of
           None \<Rightarrow> (totalL, coveredL, fileDetails, out @ [NoCoverageDataFound f])
         | Some fileData \<Rightarrow>
             (case s fileData of
                None \<Rightarrow> (totalL, coveredL, fileDetails, out @ [NoCoverageDataFound f])
              | Some statements \<Rightarrow>
                  (let fileCovered = coveredCount statements;
                       fileTotal = length statements
                   in if 0 < fileTotal then
                        (totalL + fileTotal, coveredL + fileCovered,
                         fileDetails @ [\<lparr>fileName = f, covered = fileCovered, total = fileTotal,
                                          filePercentage = percent fileCovered fileTotal\<rparr>],
                         out @ [FileCoverage f fileCovered fileTotal
                                  (percent fileCovered fileTotal)])
                      else (totalL + fileTotal, coveredL + fileCovered, fileDetails, out))))
      else (totalL, coveredL, fileDetails, out))"

definition changedLoop ::
  "(string \<Rightarrow> bool) \<Rightarrow> (string \<Rightarrow> string) \<Rightarrow> coverage \<Rightarrow> string list \<Rightarrow> changedAcc \<Rightarrow> changedAcc"
where
  "changedLoop existsSync resolve coverage changed acc =
     fold (changedStep existsSync resolve coverage) changed acc"

definition calculateChangedFilesCoverage ::
  "options \<Rightarrow> (string \<Rightarrow> bool) \<Rightarrow> (string \<Rightarrow> string) \<Rightarrow> coverage \<Rightarrow> string list
     \<Rightarrow> changedFilesCoverage \<times> console list"
where
  "calculateChangedFilesCoverage opts existsSync resolve coverage changed =
     (if length changed = 0 then
        (\<lparr>percentage = NA, totalLines = 0, coveredLines = 0, files = [],
          message = NoFilesChanged (filePatterns opts) (sourceDir opts)\<rparr>, [])
      else
        (case changedLoop existsSync resolve coverage changed
                (0, 0, [], CheckingChangedFiles # map ListedFile changed) of
           (totalL, coveredL, fileDetails, out) \<Rightarrow>
             (let overallPercentage =
                    (if 0 < totalL then percent coveredL totalL else Fixed2 0)
              in (\<lparr>percentage = overallPercentage, totalLines = totalL,
                   coveredLines = coveredL, files = fileDetails,
                   message = OverallCoverage coveredL totalL overallPercentage\<rparr>, out))))"

subsection \<open>generateMarkdownReport and main\<close>

definition thresholdMet :: "changedFilesCoverage \<Rightarrow> rat \<Rightarrow> bool" where
  \<comment> \<open>\<^verbatim>\<open>parseFloat(changedFilesCoverage.percentage) >= threshold\<close>\<close>
  "thresholdMet result threshold = js_ge (parseFloat (percentage result)) threshold"

definition generateMarkdownReport ::
  "percentage option \<Rightarrow> changedFilesCoverage \<Rightarrow> rat \<Rightarrow> report" where
  \<comment> \<open>the first parameter, \<^verbatim>\<open>globalCoverage\<close>, is not used; \<open>None\<close> is \<^verbatim>\<open>null\<close>\<close>
  "generateMarkdownReport globalCoverage result threshold =
     \<lparr>actual = percentage result,
      required = threshold,
      reportStatus = (if thresholdMet result threshold then Passed else Failed),
      details = (if 0 < length (files result) then Inl (files result)
                 else Inr (message result))\<rparr>"

definition mainThresholdMet :: "changedFilesCoverage \<Rightarrow> bool" where
  \<comment> \<open>\<^verbatim>\<open>result.percentage !== 'N/A' && parseFloat(result.percentage) >= 20\<close>\<close>
  "mainThresholdMet result =
     (percentage result \<noteq> NA \<and> js_ge (parseFloat (percentage result)) 20)"

datatype readResult = NotFound | ParseFailure string | Parsed coverage

definition main ::
  "options \<Rightarrow> readResult \<Rightarrow> (string \<Rightarrow> string + string) \<Rightarrow> (string \<Rightarrow> bool)
     \<Rightarrow> (string \<Rightarrow> string) \<Rightarrow> nat \<times> console list"
where
  \<comment> \<open>the exit status and the console; the report is generated with the default
      threshold 20\<close>
  "main opts fileRead execSync existsSync resolve =
     (case fileRead of
        NotFound \<Rightarrow> (1, [CoverageFileNotFound (coverageFile opts)])
      | ParseFailure error \<Rightarrow> (1, [FailedToParseCoverageFile error])
      | Parsed coverage \<Rightarrow>
          if global opts then (0, [GlobalCoverageLine (calculateGlobalCoverage coverage)])
          else if changedFiles opts then
            (case getChangedFiles opts execSync of
               (changed, out1) \<Rightarrow>
                 (case calculateChangedFilesCoverage opts existsSync resolve coverage changed of
                    (result, out2) \<Rightarrow>
                      (0, out1 @ out2 @
                          [CHANGED_FILES_COVERAGE (percentage result),
                           CHANGED_FILES_DETAILS (generateMarkdownReport None result 20),
                           COVERAGE_CHECK_FAILED (\<not> mainThresholdMet result)])))
          else (0, [Usage]))"

section \<open>pr-commenter.js\<close>

subsection \<open>Text\<close>

text \<open>
  Strings are byte lists; a character outside ASCII is written by its UTF-8 bytes.
  A template literal is the concatenation of its lines, each ended by a line feed.
\<close>

definition unlines :: "string list \<Rightarrow> string" where
  "unlines ls = concat (map (\<lambda>l. l @ [CHR 0x0A]) ls)"

definition emoji_bar_chart :: string where
  "emoji_bar_chart = [CHR 0xF0, CHR 0x9F, CHR 0x93, CHR 0x8A]"

definition emoji_bulb :: string where
  "emoji_bulb = [CHR 0xF0, CHR 0x9F, CHR 0x92, CHR 0xA1]"

definition emoji_masks :: string where
  "emoji_masks = [CHR 0xF0, CHR 0x9F, CHR 0x8E, CHR 0xAD]"

definition emoji_check :: string where
  "emoji_check = [CHR 0xE2, CHR 0x9C, CHR 0x85]"

definition emoji_cross :: string where
  "emoji_cross = [CHR 0xE2, CHR 0x9D, CHR 0x8C]"

definition emoji_warning :: string where
  "emoji_warning = [CHR 0xE2, CHR 0x9A, CHR 0xA0, CHR 0xEF, CHR 0xB8, CHR 0x8F]"

definition emoji_crane :: string where
  "emoji_crane = [CHR 0xF0, CHR 0x9F, CHR 0x8F, CHR 0x97, CHR 0xEF, CHR 0xB8, CHR 0x8F]"

definition emoji_robot :: string where
  "emoji_robot = [CHR 0xF0, CHR 0x9F, CHR 0xA4, CHR 0x96]"

definition emoji_wrench :: string where
  "emoji_wrench = [CHR 0xF0, CHR 0x9F, CHR 0x94, CHR 0xA7]"

definition emoji_camera :: string where
  "emoji_camera = [CHR 0xF0, CHR 0x9F, CHR 0x93, CHR 0xB9]"

definition orElse :: "string option \<Rightarrow> string \<Rightarrow> string" where
  \<comment> \<open>\<^verbatim>\<open>v || d\<close> for a string or null \<open>v\<close>: null and the empty string are falsy\<close>
  "orElse v d = (case v of None \<Rightarrow> d | Some x \<Rightarrow> if x = [] then d else x)"

definition truthy :: "string option \<Rightarrow> bool" where
  "truthy v = (case v of None \<Rightarrow> False | Some x \<Rightarrow> x \<noteq> [])"

definition ToString :: "string option \<Rightarrow> string" where
  \<comment> \<open>the conversion \<^verbatim>\<open>includes\<close> applies to its argument: null becomes \<^verbatim>\<open>"null"\<close>\<close>
  "ToString v = (case v of None \<Rightarrow> ''null'' | Some x \<Rightarrow> x)"

subsection \<open>Command line\<close>

fun indexOf :: "string list \<Rightarrow> string \<Rightarrow> nat option" where
  \<comment> \<open>\<open>None\<close> is the index \<open>-1\<close>\<close>
  "indexOf [] x = None"
| "indexOf (a # rest) x = (if a = x then Some 0 else map_option Suc (indexOf rest x))"

definition getArgValue :: "string list \<Rightarrow> string \<Rightarrow> string option" where
  "getArgValue args argName =
     (case indexOf args argName of
        None \<Rightarrow> None
      | Some index \<Rightarrow> if index + 1 < length args then Some (args ! (index + 1)) else None)"

record cliOptions =
  optType :: "string option"
  optStatus :: string
  optTitle :: "string option"
  optBody :: "string option"
  optDetails :: "string option"
  optGlobalCoverage :: "string option"
  optChangedCoverage :: "string option"
  optCoverageDetails :: "string option"

definition parseOptions :: "string list \<Rightarrow> cliOptions" where
  "parseOptions args =
     \<lparr>optType = getArgValue args ''--type'',
      optStatus = orElse (getArgValue args ''--status'') ''success'',
      optTitle = getArgValue args ''--title'',
      optBody = getArgValue args ''--body'',
      optDetails = getArgValue args ''--details'',
      optGlobalCoverage = getArgValue args ''--global-coverage'',
      optChangedCoverage = getArgValue args ''--changed-coverage'',
      optCoverageDetails = getArgValue args ''--coverage-details''\<rparr>"

subsection \<open>Comment bodies\<close>

record commentData =
  title :: string
  body :: string
  commentIdentifier :: string

definition generateCoverageComment ::
  "string option \<Rightarrow> string option \<Rightarrow> string option \<Rightarrow> commentData" where
  "generateCoverageComment globalCoverage changedCoverage coverageDetails =
     \<lparr>title = emoji_bar_chart @ '' Test Coverage Report'',
      body = unlines
        [''## '' @ emoji_bar_chart @ '' Test Coverage Report'',
         '''',
         ''### Global Coverage'',
         ''Coverage after merging this PR will be **'' @ orElse globalCoverage ''N/A'' @ ''%**'',
         '''',
         ''### Changed Files Coverage'',
         orElse coverageDetails ''No coverage details available'',
         '''',
         ''---'',
         '''',
         ''> '' @ emoji_bulb
           @ '' **Note:** The build requires 20% coverage for changed files only, not global coverage.''],
      commentIdentifier = ''test-coverage''\<rparr>"

text \<open>
  \<^verbatim>\<open>JSON.parse(details)\<close> and the reading of \<^verbatim>\<open>testDetails\<close> and \<^verbatim>\<open>buildDetails\<close> from
  its result are a parameter \<open>parseDetails\<close>: \<open>Inl\<close> the message of the error thrown,
  \<open>Inr\<close> the two properties as the template prints them (\<open>None\<close> when absent).
\<close>

type_synonym detailsParser = "string \<Rightarrow> string + (string option \<times> string option)"

definition parsedDetails ::
  "detailsParser \<Rightarrow> string option \<Rightarrow> string + (string option \<times> string option)" where
  \<comment> \<open>\<^verbatim>\<open>details ? JSON.parse(details) : {}\<close>\<close>
  "parsedDetails parseDetails d =
     (if truthy d then parseDetails (the d) else Inr (None, None))"

definition generateE2EComment :: "detailsParser \<Rightarrow> string \<Rightarrow> string option \<Rightarrow> string + commentData"
where
  "generateE2EComment parseDetails st d =
     (let (statusEmoji, statusText) =
            (if st = ''failure'' then (emoji_cross, ''Failed'')
             else if st = ''warning'' then (emoji_warning, ''Warning'')
             else (emoji_check, ''Passed''))
      in case parsedDetails parseDetails d of
           Inl error \<Rightarrow> Inl error
         | Inr (testDetailsProp, _) \<Rightarrow>
             (let testDetails = orElse testDetailsProp ''All E2E tests passed successfully!'';
                  artifacts =
                    (if st = ''failure''
                     then [CHR 0x0A] @ ''### '' @ emoji_camera
                            @ '' Test artifacts available in the Actions tab for debugging''
                     else '''')
              in Inr \<lparr>title = emoji_masks @ '' E2E Test Results'',
                      body = unlines
                        [''## '' @ emoji_masks @ '' E2E Test Results'',
                         '''',
                         ''**Status:** '' @ statusEmoji @ '' '' @ statusText,
                         ''**Details:** '' @ testDetails,
                         '''',
                         ''### Test Environment'',
                         ''- **Backend:** http://localhost:8080 (buuk-server)'',
                         ''- **Frontend:** http://localhost:3000 (buuk-web)'',
                         ''- **Database:** PostgreSQL with PostGIS'',
                         ''- **Browser:** Chromium (Playwright)'',
                         artifacts,
                         '''',
                         ''---'',
                         '''',
                         ''> '' @ emoji_robot
                           @ '' Automated E2E testing with coordinated frontend/backend setup''],
                      commentIdentifier = ''e2e-tests''\<rparr>))"

definition generateBuildComment :: "detailsParser \<Rightarrow> string \<Rightarrow> string option \<Rightarrow> string + commentData"
where
  "generateBuildComment parseDetails st d =
     (let (statusEmoji, statusText) =
            (if st = ''failure'' then (emoji_cross, ''Failed'')
             else if st = ''warning'' then (emoji_warning, ''Warning'')
             else (emoji_check, ''Success''))
      in case parsedDetails parseDetails d of
           Inl error \<Rightarrow> Inl error
         | Inr (_, buildDetailsProp) \<Rightarrow>
             (let buildDetails = orElse buildDetailsProp ''Build and linting completed successfully!''
              in Inr \<lparr>title = emoji_crane @ '' Build & Lint Results'',
                      body = unlines
                        [''## '' @ emoji_crane @ '' Build & Lint Results'',
                         '''',
                         ''**Status:** '' @ statusEmoji @ '' '' @ statusText,
                         ''**Details:** '' @ buildDetails,
                         '''',
                         ''### Build Environment'',
                         ''- **Node.js:** 24 LTS'',
                         ''- **TypeScript:** Strict mode enabled'',
                         ''- **Linting:** ESLint + Prettier'',
                         '''',
                         ''---'',
                         '''',
                         ''> '' @ emoji_wrench @ '' Automated build and code quality checks''],
                      commentIdentifier = ''build-lint''\<rparr>))"

subsection \<open>The remote API\<close>

text \<open>
  The hosting API is outside the repository. It is modelled by the comments of the
  pull request, in the order the list request returns them, the identifier the next
  created comment receives, and a \<open>fault\<close> that tells for each request whether it
  fails (authentication, pull request not found, transport) and with which message.
  Every request made is recorded in \<open>requests\<close>.
\<close>

record comment =
  comment_id :: nat
  comment_body :: string

datatype request =
    GET_comments              \<comment> \<open>\<^verbatim>\<open>GET /issues/${prNumber}/comments\<close>\<close>
  | PATCH_comment nat string  \<comment> \<open>\<^verbatim>\<open>PATCH /issues/comments/${id}\<close> with a body\<close>
  | POST_comment string       \<comment> \<open>\<^verbatim>\<open>POST /issues/${prNumber}/comments\<close> with a body\<close>

record github =
  comments :: "comment list"
  nextId :: nat
  fault :: "request \<Rightarrow> string option"
  requests :: "request list"

definition makeGitHubRequest :: "request \<Rightarrow> github \<Rightarrow> (string + comment list) \<times> github" where
  "makeGitHubRequest req gh =
     (let gh1 = gh\<lparr>requests := requests gh @ [req]\<rparr>
      in case fault gh req of
           Some error \<Rightarrow> (Inl error, gh1)
         | None \<Rightarrow>
             (case req of
                GET_comments \<Rightarrow> (Inr (comments gh), gh1)
              | POST_comment b \<Rightarrow>
                  (let c = \<lparr>comment_id = nextId gh, comment_body = b\<rparr>
                   in (Inr [c], gh1\<lparr>comments := comments gh @ [c], nextId := nextId gh + 1\<rparr>))
              | PATCH_comment i b \<Rightarrow>
                  if i \<in> set (map comment_id (comments gh))
                  then (Inr (filter (\<lambda>c. comment_id c = i)
                               (map (\<lambda>c. if comment_id c = i then c\<lparr>comment_body := b\<rparr> else c)
                                  (comments gh))),
                        gh1\<lparr>comments :=
                              map (\<lambda>c. if comment_id c = i then c\<lparr>comment_body := b\<rparr> else c)
                                (comments gh)\<rparr>)
                  else (Inl ''GitHub API error: 404 Not Found'', gh1)))"

subsection \<open>findExistingComment, postOrUpdateComment and main\<close>

text \<open>
  \<^verbatim>\<open>validateOptions\<close> checks the three environment variables before any request is
  made. The later calls of \<^verbatim>\<open>getRequiredEnvVar\<close>, in \<^verbatim>\<open>makeGitHubRequest\<close>,
  \<^verbatim>\<open>findExistingComment\<close>, \<^verbatim>\<open>postOrUpdateComment\<close> and \<^verbatim>\<open>generateCoverageComment\<close>, read
  the same environment and return; the functions below are those of a process whose
  environment has the three variables set.
\<close>

datatype commenterConsole =
    RequiredEnvVarNotSet string
  | TypeIsRequired
  | TypeMustBeOneOf
  | FailedToFetchExistingComments string
  | UpdatedExistingComment string
  | CreatedNewComment string
  | FailedToPostOrUpdateComment string
  | ScriptFailed string
  | CommenterUsage

definition findExistingComment ::
  "string option \<Rightarrow> string \<Rightarrow> github \<Rightarrow> (comment option \<times> commenterConsole list) \<times> github"
where
  \<comment> \<open>the first argument is \<^verbatim>\<open>options.title\<close>, the value of the \<^verbatim>\<open>--title\<close> flag\<close>
  "findExistingComment optionsTitle ident gh =
     (case makeGitHubRequest GET_comments gh of
        (Inl error, gh') \<Rightarrow> ((None, [FailedToFetchExistingComments error]), gh')
      | (Inr cs, gh') \<Rightarrow>
          ((find (\<lambda>c. str_includes (comment_body c) ident
                       \<or> str_includes (comment_body c) (ToString optionsTitle)) cs, []), gh'))"

definition postOrUpdateComment ::
  "string option \<Rightarrow> commentData \<Rightarrow> github \<Rightarrow> (nat option \<times> commenterConsole list) \<times> github"
where
  \<comment> \<open>the first component of the result is the status of \<^verbatim>\<open>process.exit\<close>, \<open>None\<close> when
      the function returns\<close>
  "postOrUpdateComment optionsTitle commentData gh =
     (case findExistingComment optionsTitle (commentIdentifier commentData) gh of
        ((existingComment, out), gh1) \<Rightarrow>
          (case existingComment of
             Some c \<Rightarrow>
               (case makeGitHubRequest (PATCH_comment (comment_id c) (body commentData)) gh1 of
                  (Inl error, gh2) \<Rightarrow> ((Some 1, out @ [FailedToPostOrUpdateComment error]), gh2)
                | (Inr _, gh2) \<Rightarrow> ((None, out @ [UpdatedExistingComment (title commentData)]), gh2))
           | None \<Rightarrow>
               (case makeGitHubRequest (POST_comment (body commentData)) gh1 of
                  (Inl error, gh2) \<Rightarrow> ((Some 1, out @ [FailedToPostOrUpdateComment error]), gh2)
                | (Inr _, gh2) \<Rightarrow> ((None, out @ [CreatedNewComment (title commentData)]), gh2))))"

definition getRequiredEnvVar :: "(string \<Rightarrow> string option) \<Rightarrow> string \<Rightarrow> string option" where
  \<comment> \<open>\<open>None\<close> when the process exits with status 1\<close>
  "getRequiredEnvVar env name = (if truthy (env name) then env name else None)"

definition validateOptions :: "(string \<Rightarrow> string option) \<Rightarrow> cliOptions \<Rightarrow> commenterConsole option" where
  \<comment> \<open>the line printed before \<^verbatim>\<open>process.exit(1)\<close>, \<open>None\<close> when the options are valid\<close>
  "validateOptions env opts =
     (if \<not> truthy (optType opts) then Some TypeIsRequired
      else if the (optType opts) \<notin> set [''coverage'', ''e2e'', ''build''] then Some TypeMustBeOneOf
      else if getRequiredEnvVar env ''GITHUB_TOKEN'' = None
        then Some (RequiredEnvVarNotSet ''GITHUB_TOKEN'')
      else if getRequiredEnvVar env ''GITHUB_REPOSITORY'' = None
        then Some (RequiredEnvVarNotSet ''GITHUB_REPOSITORY'')
      else if getRequiredEnvVar env ''PR_NUMBER'' = None
        then Some (RequiredEnvVarNotSet ''PR_NUMBER'')
      else None)"

definition commentFor :: "detailsParser \<Rightarrow> cliOptions \<Rightarrow> string + commentData" where
  \<comment> \<open>the \<^verbatim>\<open>switch\<close> of \<^verbatim>\<open>main\<close> on a validated type, and the two overrides\<close>
  "commentFor parseDetails opts =
     (case (if optType opts = Some ''coverage''
            then Inr (generateCoverageComment (optGlobalCoverage opts) (optChangedCoverage opts)
                        (optCoverageDetails opts))
            else if optType opts = Some ''e2e''
            then generateE2EComment parseDetails (optStatus opts) (optDetails opts)
            else generateBuildComment parseDetails (optStatus opts) (optDetails opts)) of
        Inl error \<Rightarrow> Inl error
      | Inr commentData \<Rightarrow>
          (let d1 = (if truthy (optTitle opts) then commentData\<lparr>title := the (optTitle opts)\<rparr>
                     else commentData);
               d2 = (if truthy (optBody opts) then d1\<lparr>body := the (optBody opts)\<rparr> else d1)
           in Inr d2))"

definition commenterMain ::
  "(string \<Rightarrow> string option) \<Rightarrow> detailsParser \<Rightarrow> string list \<Rightarrow> github
     \<Rightarrow> (nat \<times> commenterConsole list) \<times> github"
where
  \<comment> \<open>a run of the script: the exit status, the console and the remote state\<close>
  "commenterMain env parseDetails args gh =
     (if length args = 0 then ((1, [CommenterUsage]), gh)
      else
        (let opts = parseOptions args
         in case validateOptions env opts of
              Some line \<Rightarrow> ((1, [line]), gh)
            | None \<Rightarrow>
                (case commentFor parseDetails opts of
                   Inl error \<Rightarrow> ((1, [ScriptFailed error]), gh)
                 | Inr commentData \<Rightarrow>
                     (case postOrUpdateComment (optTitle opts) commentData gh of
                        ((Some code, out), gh') \<Rightarrow> ((code, out), gh')
                      | ((None, out), gh') \<Rightarrow> ((0, out), gh')))))"

section \<open>The aggregates in the words of the specification\<close>

definition totalUnits :: "coverage \<Rightarrow> nat" where
  \<comment> \<open>the number of statements of all entries that have a statement map\<close>
  "totalUnits coverage =
     sum_list (map (\<lambda>d. case s d of Some statements \<Rightarrow> length statements | None \<Rightarrow> 0)
                 (Object_values coverage))"

definition coveredUnits :: "coverage \<Rightarrow> nat" where
  \<comment> \<open>the number of those statements with a positive hit count\<close>
  "coveredUnits coverage =
     sum_list (map (\<lambda>d. case s d of Some statements \<Rightarrow> coveredCount statements | None \<Rightarrow> 0)
                 (Object_values coverage))"

definition matches :: "(string \<Rightarrow> string) \<Rightarrow> string \<Rightarrow> fileData \<Rightarrow> bool" where
  \<comment> \<open>the entry has the resolved absolute path, or its path ends with the changed path\<close>
  "matches resolve f d = (path d = resolve f \<or> endsWith (path d) f)"

definition statementsFor ::
  "(string \<Rightarrow> bool) \<Rightarrow> (string \<Rightarrow> string) \<Rightarrow> coverage \<Rightarrow> string \<Rightarrow> int list option" where
  \<comment> \<open>the statement counts the aggregate takes for a changed file, if any\<close>
  "statementsFor existsSync resolve coverage f =
     (if existsSync f
      then (case findFileData resolve coverage f of Some d \<Rightarrow> s d | None \<Rightarrow> None)
      else None)"

definition changedTotal ::
  "(string \<Rightarrow> bool) \<Rightarrow> (string \<Rightarrow> string) \<Rightarrow> coverage \<Rightarrow> string list \<Rightarrow> nat" where
  "changedTotal existsSync resolve coverage changed =
     sum_list (map (\<lambda>f. case statementsFor existsSync resolve coverage f of
                           Some statements \<Rightarrow> length statements | None \<Rightarrow> 0) changed)"

definition changedCovered ::
  "(string \<Rightarrow> bool) \<Rightarrow> (string \<Rightarrow> string) \<Rightarrow> coverage \<Rightarrow> string list \<Rightarrow> nat" where
  "changedCovered existsSync resolve coverage changed =
     sum_list (map (\<lambda>f. case statementsFor existsSync resolve coverage f of
                           Some statements \<Rightarrow> coveredCount statements | None \<Rightarrow> 0) changed)"

definition detailsFor ::
  "(string \<Rightarrow> bool) \<Rightarrow> (string \<Rightarrow> string) \<Rightarrow> coverage \<Rightarrow> string \<Rightarrow> fileDetail list" where
  \<comment> \<open>the per-file entry of a changed file: none, or one\<close>
  "detailsFor existsSync resolve coverage f =
     (case statementsFor existsSync resolve coverage f of
        Some statements \<Rightarrow>
          if 0 < length statements
          then [\<lparr>fileName = f, covered = coveredCount statements, total = length statements,
                 filePercentage = percent (coveredCount statements) (length statements)\<rparr>]
          else []
      | None \<Rightarrow> [])"

definition linesFor ::
  "(string \<Rightarrow> bool) \<Rightarrow> (string \<Rightarrow> string) \<Rightarrow> coverage \<Rightarrow> string \<Rightarrow> console list" where
  \<comment> \<open>the lines the loop prints for a changed file\<close>
  "linesFor existsSync resolve coverage f =
     (if existsSync f then
        (case statementsFor existsSync resolve coverage f of
           Some statements \<Rightarrow>
             if 0 < length statements
             then [FileCoverage f (coveredCount statements) (length statements)
                     (percent (coveredCount statements) (length statements))]
             else []
         | None \<Rightarrow> [NoCoverageDataFound f])
      else [])"

text \<open>The selection of an existing comment, and the remote state after the list request.\<close>

definition selects :: "string option \<Rightarrow> string \<Rightarrow> comment \<Rightarrow> bool" where
  \<comment> \<open>the predicate of \<^verbatim>\<open>comments.find\<close> in \<open>findExistingComment\<close>\<close>
  "selects optionsTitle ident c =
     (str_includes (comment_body c) ident \<or> str_includes (comment_body c) (ToString optionsTitle))"

definition listed :: "github \<Rightarrow> github" where
  \<comment> \<open>the remote state after a list request\<close>
  "listed gh = gh\<lparr>requests := requests gh @ [GET_comments]\<rparr>"

section \<open>Example inputs\<close>

definition defaultOptions :: options where
  \<comment> \<open>\<^verbatim>\<open>node coverage-calculator.js --changed-files\<close>\<close>
  "defaultOptions =
     \<lparr>global = False, changedFiles = True, coverageFile = ''coverage/coverage-final.json'',
      baseBranch = ''main'', filePatterns = ''.ts,.tsx,.js,.jsx'', sourceDir = ''src/''\<rparr>"

definition everyFileExists :: "string \<Rightarrow> bool" where
  "everyFileExists f = True"

definition noFileExists :: "string \<Rightarrow> bool" where
  "noFileExists f = False"

definition resolveInRepo :: "string \<Rightarrow> string" where
  \<comment> \<open>\<^verbatim>\<open>path.resolve\<close> of a relative path in the working directory \<^verbatim>\<open>/repo\<close>\<close>
  "resolveInRepo f = ''/repo/'' @ f"

definition gitPrintsNothing :: "string \<Rightarrow> string + string" where
  "gitPrintsNothing command = Inr []"

definition gitFetchFails :: "string \<Rightarrow> string + string" where
  "gitFetchFails command =
     (if command = ''git fetch origin main:main''
      then Inl ''Command failed: git fetch origin main:main''
      else Inr ''src/a.js'')"

definition gitPrintsA :: "string \<Rightarrow> string + string" where
  "gitPrintsA command = Inr (''src/A.js'' @ [CHR 0x0A])"

definition fetchSucceeds :: gitRun where
  "fetchSucceeds = \<lparr>stdout = [], stderr = [], exitStatus = 0\<rparr>"

definition noMergeBase :: gitRun where
  \<comment> \<open>\<^verbatim>\<open>git diff\<close> of two references without a common ancestor\<close>
  "noMergeBase =
     \<lparr>stdout = [], stderr = ''fatal: origin/main...HEAD: no merge base'', exitStatus = 128\<rparr>"

definition keepsSource :: "string \<Rightarrow> bool" where
  \<comment> \<open>the lines the patterns of \<open>defaultOptions\<close> keep\<close>
  "keepsSource l =
     ((endsWith l ''.ts'' \<or> endsWith l ''.tsx'' \<or> endsWith l ''.js'' \<or> endsWith l ''.jsx'')
      \<and> take 4 l = ''src/'')"

definition coverageAB :: coverage where
  \<comment> \<open>A with 8 of 10 statements covered, B with 2 of 5\<close>
  "coverageAB =
     [(''/repo/src/A.js'', \<lparr>path = ''/repo/src/A.js'', s = Some [1, 1, 3, 1, 1, 2, 1, 1, 0, 0]\<rparr>),
      (''/repo/src/B.js'', \<lparr>path = ''/repo/src/B.js'', s = Some [1, 0, 0, 4, 0]\<rparr>)]"

definition monorepoCoverage :: coverage where
  \<comment> \<open>two files whose paths end alike; the second is \<^verbatim>\<open>/repo/src/x.js\<close> itself\<close>
  "monorepoCoverage =
     [(''/repo/packages/a/src/x.js'', \<lparr>path = ''/repo/packages/a/src/x.js'', s = Some [0]\<rparr>),
      (''/repo/src/x.js'', \<lparr>path = ''/repo/src/x.js'', s = Some [1]\<rparr>)]"

definition exampleEnv :: "string \<Rightarrow> string option" where
  "exampleEnv name =
     (if name = ''GITHUB_TOKEN'' then Some ''secret''
      else if name = ''GITHUB_REPOSITORY'' then Some ''BuukGroup/buuk-server''
      else if name = ''PR_NUMBER'' then Some ''7''
      else None)"

definition noDetailsParser :: detailsParser where
  "noDetailsParser d = Inl ''Unexpected end of JSON input''"

definition emptyPullRequest :: github where
  "emptyPullRequest = \<lparr>comments = [], nextId = 1, fault = (\<lambda>r. None), requests = []\<rparr>"

definition listFails :: "request \<Rightarrow> string option" where
  "listFails r = (if r = GET_comments then Some ''GitHub API error: 401 Bad credentials'' else None)"

definition coverageArgs :: "string list" where
  \<comment> \<open>the first example of the usage text\<close>
  "coverageArgs =
     [''--type'', ''coverage'', ''--global-coverage'', ''85.5'', ''--changed-coverage'', ''90.2'']"

definition e2eArgs :: "string list" where
  "e2eArgs =
     [''--type'', ''e2e'', ''--status'', ''failure'',
      ''--body'', ''E2E failed: cannot read properties of null'']"

definition coverageBody :: string where
  \<comment> \<open>the body of the comment for \<open>coverageArgs\<close>\<close>
  "coverageBody = body (generateCoverageComment (Some ''85.5'') (Some ''90.2'') None)"

definition discussedPullRequest :: github where
  \<comment> \<open>a pull request with one comment, written by a person\<close>
  "discussedPullRequest =
     \<lparr>comments = [\<lparr>comment_id = 41, comment_body = ''Please add a null check here.''\<rparr>],
      nextId = 42, fault = (\<lambda>r. None), requests = []\<rparr>"

definition coverageArgsLater :: "string list" where
  \<comment> \<open>a later run on the same pull request, with new figures\<close>
  "coverageArgsLater =
     [''--type'', ''coverage'', ''--global-coverage'', ''86.0'', ''--changed-coverage'', ''91.4'']"

definition coverageBodyLater :: string where
  "coverageBodyLater = body (generateCoverageComment (Some ''86.0'') (Some ''91.4'') None)"

definition unauthorizedList :: github where
  \<comment> \<open>an empty pull request whose list request is refused\<close>
  "unauthorizedList = emptyPullRequest\<lparr>fault := listFails\<rparr>"

definition createFails :: github where
  \<comment> \<open>an empty pull request on which creating a comment is forbidden\<close>
  "createFails =
     emptyPullRequest\<lparr>fault := (\<lambda>r. case r of POST_comment b \<Rightarrow> Some ''GitHub API error: 403 Forbidden''
                                         | _ \<Rightarrow> None)\<rparr>"

section \<open>Properties of the number model\<close>

lemma floor_log2_bounds: "0 < n \<Longrightarrow> 2 ^ floor_log2 n \<le> n \<and> n < 2 ^ Suc (floor_log2 n)"
proof (induction n rule: floor_log2.induct)
  case (1 n)
  show ?case
  proof (cases "n < 2")
    case True
    with 1(2) have "n = 1" by simp
    then show ?thesis by (simp add: floor_log2.simps)
  next
    case False
    then have pos: "0 < n div 2" by simp
    from 1(1)[OF False pos] have ih: "2 ^ floor_log2 (n div 2) \<le> n div 2" "n div 2 < 2 ^ Suc (floor_log2 (n div 2))"
      by simp_all
    have eq: "floor_log2 n = Suc (floor_log2 (n div 2))"
      using False by (subst floor_log2.simps) simp
    from ih(1) have a: "2 * 2 ^ floor_log2 (n div 2) \<le> n" by linarith
    from ih(2) have b: "n < 2 * 2 ^ Suc (floor_log2 (n div 2))" by linarith
    show ?thesis using a b by (simp add: eq)
  qed
qed

lemma ilog2_bounds:
  assumes "0 < q"
  shows "2 powi ilog2 q \<le> q \<and> q < 2 powi (ilog2 q + 1)"
proof (cases "1 \<le> q")
  case True
  define n where "n = nat \<lfloor>q\<rfloor>"
  have npos: "0 < n" using True by (simp add: n_def)
  have e: "ilog2 q = int (floor_log2 n)" using True by (simp add: ilog2_def n_def)
  from floor_log2_bounds[OF npos]
  have b1: "2 ^ floor_log2 n \<le> n" and b2: "n < 2 ^ Suc (floor_log2 n)" by simp_all
  have nq: "rat_of_nat n \<le> q" unfolding n_def
    by (rule of_nat_floor) (use True in linarith)
  have "rat_of_nat (2 ^ floor_log2 n) \<le> rat_of_nat n" using b1 by (simp only: of_nat_le_iff)
  then have "(2::rat) ^ floor_log2 n \<le> rat_of_nat n" by simp
  then have l: "(2::rat) ^ floor_log2 n \<le> q" using nq by linarith
  have "\<lfloor>q\<rfloor> < 2 ^ Suc (floor_log2 n)"
    using b2 unfolding n_def using True by (simp add: nat_less_iff)
  then have "\<lfloor>q\<rfloor> + 1 \<le> 2 ^ Suc (floor_log2 n)" by simp
  then have "rat_of_int (\<lfloor>q\<rfloor> + 1) \<le> rat_of_int (2 ^ Suc (floor_log2 n))" by (simp only: of_int_le_iff)
  then have "rat_of_int (\<lfloor>q\<rfloor> + 1) \<le> (2::rat) ^ Suc (floor_log2 n)" by simp
  moreover have "q < rat_of_int (\<lfloor>q\<rfloor> + 1)" by linarith
  ultimately have u: "q < (2::rat) ^ Suc (floor_log2 n)" by linarith
  show ?thesis using l u unfolding e
    by (simp add: power_int_add)
next
  case False
  then have q1: "q < 1" by simp
  define m where "m = nat \<lceil>1 / q\<rceil>"
  have inv: "1 < 1 / q" using assms q1 by simp
  then have "1 < \<lceil>1 / q\<rceil>" by (simp add: less_ceiling_iff)
  then have m2: "2 \<le> m" unfolding m_def by linarith
  have e: "ilog2 q = - int (Suc (floor_log2 (m - 1)))"
    using False m2 by (simp add: ilog2_def m_def Let_def)
  have mpos: "0 < m - 1" using m2 by simp
  from floor_log2_bounds[OF mpos]
  have b1: "2 ^ floor_log2 (m - 1) \<le> m - 1" and b2: "m - 1 < 2 ^ Suc (floor_log2 (m - 1))" by simp_all
  define j where "j = floor_log2 (m - 1)"
  have mc: "int m = \<lceil>1 / q\<rceil>" using m2 unfolding m_def by linarith
  have "m \<le> 2 ^ Suc j" using b2 m2 unfolding j_def by linarith
  then have "int m \<le> int (2 ^ Suc j)" by (simp only: of_nat_le_iff)
  then have "\<lceil>1 / q\<rceil> \<le> 2 ^ Suc j" unfolding mc by simp
  then have "rat_of_int \<lceil>1 / q\<rceil> \<le> rat_of_int (2 ^ Suc j)" by (simp only: of_int_le_iff)
  then have "rat_of_int \<lceil>1 / q\<rceil> \<le> 2 ^ Suc j" by simp
  moreover have "1 / q \<le> rat_of_int \<lceil>1 / q\<rceil>" by (rule le_of_int_ceiling)
  ultimately have iq: "1 / q \<le> (2::rat) ^ Suc j" by linarith
  have l: "1 / (2::rat) ^ Suc j \<le> q" using assms iq by (simp add: field_simps)
  have "2 ^ j < m" using b1 mpos unfolding j_def by linarith
  then have "int (2 ^ j) < int m" by (simp only: of_nat_less_iff)
  then have "2 ^ j < \<lceil>1 / q\<rceil>" unfolding mc by simp
  then have "rat_of_int (2 ^ j) < 1 / q" by (simp only: less_ceiling_iff)
  then have qi: "(2::rat) ^ j < 1 / q" by simp
  have u: "q < 1 / (2::rat) ^ j" using assms qi by (simp add: field_simps)
  have p1: "(2::rat) powi (- int (Suc j)) = 1 / 2 ^ Suc j"
    by (simp only: power_int_minus power_int_of_nat inverse_eq_divide)
  have "- int (Suc j) + 1 = - int j" by simp
  then have p2: "(2::rat) powi (- int (Suc j) + 1) = 1 / 2 ^ j"
    by (simp only: power_int_minus power_int_of_nat inverse_eq_divide)
  show ?thesis unfolding e j_def[symmetric] p1 p2 using l u by simp
qed

lemma round_half_even_le: "x \<le> of_int n \<Longrightarrow> round_half_even x \<le> n"
proof -
  assume a: "x \<le> of_int n"
  have f: "\<lfloor>x\<rfloor> \<le> n" using a by (simp add: floor_le_iff)
  show ?thesis
  proof (cases "\<lfloor>x\<rfloor> = n")
    case True
    then have "x - of_int \<lfloor>x\<rfloor> \<le> 0" using a by simp
    then show ?thesis using True by (simp add: round_half_even_def Let_def)
  next
    case False
    then have "\<lfloor>x\<rfloor> + 1 \<le> n" using f by simp
    then show ?thesis by (simp add: round_half_even_def Let_def)
  qed
qed

lemma round_half_even_ge: "of_int n \<le> x \<Longrightarrow> n \<le> round_half_even x"
proof -
  assume a: "of_int n \<le> x"
  have f: "n \<le> \<lfloor>x\<rfloor>" using a by (simp add: le_floor_iff)
  then show ?thesis by (simp add: round_half_even_def Let_def)
qed

lemma round_half_even_err: "\<bar>of_int (round_half_even x) - x\<bar> \<le> 1 / 2"
proof -
  have a: "of_int \<lfloor>x\<rfloor> \<le> x" "x < of_int \<lfloor>x\<rfloor> + 1" by linarith+
  consider "x - of_int \<lfloor>x\<rfloor> < 1 / 2" | "1 / 2 < x - of_int \<lfloor>x\<rfloor>"
    | "x - of_int \<lfloor>x\<rfloor> = 1 / 2" by linarith
  then show ?thesis
  proof cases
    case 1
    then have "round_half_even x = \<lfloor>x\<rfloor>" by (simp add: round_half_even_def Let_def)
    then show ?thesis using a 1 by simp
  next
    case 2
    then have "round_half_even x = \<lfloor>x\<rfloor> + 1" by (simp add: round_half_even_def Let_def)
    then show ?thesis using a 2 by simp
  next
    case 3
    then have "round_half_even x = \<lfloor>x\<rfloor> \<or> round_half_even x = \<lfloor>x\<rfloor> + 1"
      by (simp add: round_half_even_def Let_def)
    then show ?thesis using a 3 by auto
  qed
qed

lemma ilog2_less:
  assumes "0 < q" "q < 2 powi e"
  shows "ilog2 q < e"
proof (rule ccontr)
  assume "\<not> ilog2 q < e"
  then have "e \<le> ilog2 q" by simp
  then have "(2::rat) powi e \<le> 2 powi ilog2 q" by (intro power_int_increasing) simp_all
  with ilog2_bounds[OF assms(1)] assms(2) show False by linarith
qed

lemma ilog2_ge:
  assumes "0 < q" "2 powi e \<le> q"
  shows "e \<le> ilog2 q"
proof (rule ccontr)
  assume "\<not> e \<le> ilog2 q"
  then have "ilog2 q + 1 \<le> e" by simp
  then have "(2::rat) powi (ilog2 q + 1) \<le> 2 powi e" by (intro power_int_increasing) simp_all
  with ilog2_bounds[OF assms(1)] assms(2) show False by linarith
qed

lemma fl_pos_le:
  assumes q: "0 < q" and le: "q \<le> of_int a / 2 ^ j" and a: "a < 2 ^ 53"
  shows "fl_pos q \<le> of_int a / 2 ^ j"
proof -
  define k where "k = 52 - ilog2 q"
  have "rat_of_int a < rat_of_int (2 ^ 53)" using a by (simp only: of_int_less_iff)
  then have a': "rat_of_int a < 2 ^ 53" by simp
  have "rat_of_int a / 2 ^ j < 2 ^ 53 / 2 ^ j" using a' by (intro divide_strict_right_mono) simp_all
  also have "\<dots> = 2 powi (53 - int j)"
    by (simp add: power_int_diff)
  finally have "q < 2 powi (53 - int j)" using le by linarith
  from ilog2_less[OF q this] have kj: "int j \<le> k" unfolding k_def by simp
  define d where "d = nat (k - int j)"
  have kd: "k = int j + int d" using kj unfolding d_def by simp
  have pk: "(2::rat) powi k = 2 ^ j * 2 ^ d" unfolding kd
    by (simp add: power_int_add)
  have pos: "(0::rat) < 2 powi k" by simp
  have "q * 2 powi k \<le> (of_int a / 2 ^ j) * 2 powi k"
    using le pos by (intro mult_right_mono) simp_all
  also have "\<dots> = rat_of_int (a * 2 ^ d)" unfolding pk by simp
  finally have "round_half_even (q * 2 powi k) \<le> a * 2 ^ d" by (rule round_half_even_le)
  then have "rat_of_int (round_half_even (q * 2 powi k)) \<le> rat_of_int (a * 2 ^ d)"
    by (simp only: of_int_le_iff)
  then have "rat_of_int (round_half_even (q * 2 powi k)) / 2 powi k \<le> rat_of_int (a * 2 ^ d) / 2 powi k"
    using pos by (intro divide_right_mono) simp_all
  also have "rat_of_int (a * 2 ^ d) / 2 powi k = of_int a / 2 ^ j" unfolding pk by simp
  finally show ?thesis unfolding fl_pos_def Let_def k_def[symmetric] .
qed

lemma fl_pos_ge:
  assumes q: "0 < q" and le: "of_int a / 2 ^ j \<le> q" and a: "a < 2 ^ 53"
  shows "of_int a / 2 ^ j \<le> fl_pos q"
proof -
  define k where "k = 52 - ilog2 q"
  have pos: "(0::rat) < 2 powi k" by simp
  have "rat_of_int a < rat_of_int (2 ^ 53)" using a by (simp only: of_int_less_iff)
  then have a': "rat_of_int a < 2 ^ 53" by simp
  show ?thesis
  proof (cases "int j \<le> k")
    case True
    define d where "d = nat (k - int j)"
    have kd: "k = int j + int d" using True unfolding d_def by simp
    have pk: "(2::rat) powi k = 2 ^ j * 2 ^ d" unfolding kd
      by (simp add: power_int_add)
    have "rat_of_int (a * 2 ^ d) = (of_int a / 2 ^ j) * 2 powi k" unfolding pk by simp
    also have "\<dots> \<le> q * 2 powi k" using le pos by (intro mult_right_mono) simp_all
    finally have "a * 2 ^ d \<le> round_half_even (q * 2 powi k)" by (rule round_half_even_ge)
    then have "rat_of_int (a * 2 ^ d) \<le> rat_of_int (round_half_even (q * 2 powi k))"
      by (simp only: of_int_le_iff)
    then have "rat_of_int (a * 2 ^ d) / 2 powi k \<le> rat_of_int (round_half_even (q * 2 powi k)) / 2 powi k"
      using pos by (intro divide_right_mono) simp_all
    moreover have "rat_of_int (a * 2 ^ d) / 2 powi k = of_int a / 2 ^ j" unfolding pk by simp
    ultimately show ?thesis unfolding fl_pos_def Let_def k_def[symmetric] by simp
  next
    case False
    then have kj: "k + 1 \<le> int j" by simp
    have "(2::rat) powi 52 = 2 powi ilog2 q * 2 powi k" unfolding k_def
      by (simp add: power_int_add[symmetric])
    also have "\<dots> \<le> q * 2 powi k" using ilog2_bounds[OF q] pos by (intro mult_right_mono) simp_all
    finally have "of_int (2 ^ 52) \<le> q * 2 powi k" by simp
    then have "2 ^ 52 \<le> round_half_even (q * 2 powi k)" by (rule round_half_even_ge)
    then have "rat_of_int (2 ^ 52) \<le> rat_of_int (round_half_even (q * 2 powi k))"
      by (simp only: of_int_le_iff)
    then have "rat_of_int (2 ^ 52) / 2 powi k \<le> rat_of_int (round_half_even (q * 2 powi k)) / 2 powi k"
      using pos by (intro divide_right_mono) simp_all
    then have r: "2 powi (52 - k) \<le> fl_pos q" unfolding fl_pos_def Let_def k_def[symmetric]
      by (simp add: power_int_diff)
    have "rat_of_int a / 2 ^ j \<le> 2 ^ 53 / 2 ^ j" using a' by (intro divide_right_mono) simp_all
    also have "\<dots> = 2 powi (53 - int j)" by (simp add: power_int_diff)
    also have "\<dots> \<le> 2 powi (52 - k)" using kj by (intro power_int_increasing) simp_all
    finally show ?thesis using r by linarith
  qed
qed

lemma fl_pos_err:
  assumes q: "0 < q"
  shows "\<bar>fl_pos q - q\<bar> \<le> q / 2 ^ 53"
proof -
  define k where "k = 52 - ilog2 q"
  define m where "m = round_half_even (q * 2 powi k)"
  have pos: "(0::rat) < 2 powi k" by simp
  have e: "\<bar>of_int m - q * 2 powi k\<bar> \<le> 1 / 2" unfolding m_def by (rule round_half_even_err)
  have "fl_pos q - q = (of_int m - q * 2 powi k) / 2 powi k"
    unfolding fl_pos_def Let_def k_def[symmetric] m_def[symmetric] using pos
    by (simp add: field_simps)
  then have "\<bar>fl_pos q - q\<bar> = \<bar>of_int m - q * 2 powi k\<bar> / 2 powi k"
    using pos by simp
  also have "\<dots> \<le> (1 / 2) / 2 powi k" using e pos by (intro divide_right_mono) simp_all
  finally have b: "\<bar>fl_pos q - q\<bar> \<le> (1 / 2) / 2 powi k" .
  have "(2::rat) powi 52 = 2 powi ilog2 q * 2 powi k" unfolding k_def
    by (simp add: power_int_add[symmetric])
  also have "\<dots> \<le> q * 2 powi k" using ilog2_bounds[OF q] pos by (intro mult_right_mono) simp_all
  finally have "2 ^ 52 \<le> q * 2 powi k" by simp
  then have "(1 / 2) / 2 powi k \<le> q / 2 ^ 53" using pos by (simp add: field_simps)
  with b show ?thesis by linarith
qed

lemma fl_pos_nonneg: "0 < q \<Longrightarrow> 0 \<le> fl_pos q"
  using fl_pos_ge[of q 0 0] by simp

lemma fl_le_dyadic:
  assumes le: "q \<le> of_int a / 2 ^ j" and a: "\<bar>a\<bar> < 2 ^ 53"
  shows "fl q \<le> of_int a / 2 ^ j"
proof -
  consider "0 < q" | "q = 0" | "q < 0" by linarith
  then show ?thesis
  proof cases
    case 1
    have "a < 2 ^ 53" using a by linarith
    from fl_pos_le[OF 1 le this] 1 show ?thesis by (simp add: fl_def)
  next
    case 2
    then show ?thesis using le by (simp add: fl_def)
  next
    case 3
    then have f: "fl q = - fl_pos (- q)" by (simp add: fl_def)
    have nq: "0 < - q" using 3 by simp
    show ?thesis
    proof (cases "0 \<le> a")
      case True
      then have "0 \<le> rat_of_int a / 2 ^ j" by simp
      with fl_pos_nonneg[OF nq] f show ?thesis by linarith
    next
      case False
      have "rat_of_int (- a) / 2 ^ j \<le> - q" using le by simp
      moreover have "- a < 2 ^ 53" using a by linarith
      ultimately have "rat_of_int (- a) / 2 ^ j \<le> fl_pos (- q)" by (rule fl_pos_ge[OF nq])
      then show ?thesis using f by simp
    qed
  qed
qed

lemma fl_ge_dyadic:
  assumes le: "of_int a / 2 ^ j \<le> q" and a: "\<bar>a\<bar> < 2 ^ 53"
  shows "of_int a / 2 ^ j \<le> fl q"
proof -
  consider "0 < q" | "q = 0" | "q < 0" by linarith
  then show ?thesis
  proof cases
    case 1
    have "a < 2 ^ 53" using a by linarith
    from fl_pos_ge[OF 1 le this] 1 show ?thesis by (simp add: fl_def)
  next
    case 2
    then show ?thesis using le by (simp add: fl_def)
  next
    case 3
    then have f: "fl q = - fl_pos (- q)" by (simp add: fl_def)
    have nq: "0 < - q" using 3 by simp
    have neg: "rat_of_int a / 2 ^ j < 0" using le 3 by linarith
    have "- q \<le> rat_of_int (- a) / 2 ^ j" using le by simp
    moreover have "- a < 2 ^ 53" using a by linarith
    ultimately have "fl_pos (- q) \<le> rat_of_int (- a) / 2 ^ j" by (rule fl_pos_le[OF nq])
    then show ?thesis using f by simp
  qed
qed

lemma fl_err: "0 \<le> q \<Longrightarrow> \<bar>fl q - q\<bar> \<le> q / 2 ^ 53"
  using fl_pos_err[of q] by (cases "q = 0") (simp_all add: fl_def)

lemma percent_bounds:
  assumes t: "0 < t" and c: "c \<le> t"
  shows "\<exists>n. percent c t = Fixed2 n \<and> 0 \<le> n \<and> n \<le> 10000
           \<and> \<bar>rat_of_int n - 10000 * rat_of_nat c / rat_of_nat t\<bar> \<le> 1 / 2 + 1 / 10 ^ 11"
proof -
  define q :: rat where "q = of_nat c / of_nat t"
  define x where "x = fl q"
  define y where "y = fl (x * 100)"
  define n where "n = toFixed2 y"
  have q0: "0 \<le> q" unfolding q_def by simp
  have q1: "q \<le> 1" unfolding q_def using t c by simp
  have x0: "0 \<le> x" unfolding x_def using fl_ge_dyadic[of 0 0 q] q0 by simp
  have x1: "x \<le> 1" unfolding x_def using fl_le_dyadic[of q 1 0] q1 by simp
  have y0: "0 \<le> y" unfolding y_def using fl_ge_dyadic[of 0 0 "x * 100"] x0 by simp
  have y1: "y \<le> 100" unfolding y_def using fl_le_dyadic[of "x * 100" 100 0] x1 by simp
  have n0: "0 \<le> n" unfolding n_def toFixed2_def using y0 by simp
  have "y * 100 + 1 / 2 < 10001" using y1 by simp
  then have "\<lfloor>y * 100 + 1 / 2\<rfloor> < 10001" by (simp add: floor_less_iff)
  then have n1: "n \<le> 10000" unfolding n_def toFixed2_def by simp
  have ex: "\<bar>x - q\<bar> \<le> q / 2 ^ 53" unfolding x_def using fl_err[OF q0] .
  have "0 \<le> x * 100" using x0 by simp
  from fl_err[OF this] have ey: "\<bar>y - x * 100\<bar> \<le> x * 100 / 2 ^ 53" unfolding y_def .
  have en: "of_int n \<le> y * 100 + 1 / 2 \<and> y * 100 + 1 / 2 < of_int n + 1"
    unfolding n_def toFixed2_def by linarith
  have "q / 2 ^ 53 \<le> 1 / 2 ^ 53" using q1 by (intro divide_right_mono) simp_all
  with ex have ex': "\<bar>x - q\<bar> \<le> 1 / 2 ^ 53" by linarith
  have "x * 100 / 2 ^ 53 \<le> 100 / 2 ^ 53" using x1 by (intro divide_right_mono) simp_all
  with ey have ey': "\<bar>y - x * 100\<bar> \<le> 100 / 2 ^ 53" by linarith
  have p: "(2::rat) ^ 53 = 9007199254740992" by simp
  have "\<bar>of_int n - 10000 * q\<bar> \<le> 1 / 2 + 20000 / 2 ^ 53"
    using en ex' ey' unfolding p abs_le_iff by linarith
  moreover have "(20000::rat) / 2 ^ 53 \<le> 1 / 10 ^ 11" by simp
  ultimately have acc: "\<bar>of_int n - 10000 * q\<bar> \<le> 1 / 2 + 1 / 10 ^ 11" by linarith
  have "percent c t = Fixed2 n" unfolding percent_def n_def y_def x_def q_def ..
  moreover have "\<bar>rat_of_int n - 10000 * rat_of_nat c / rat_of_nat t\<bar> \<le> 1 / 2 + 1 / 10 ^ 11"
    using acc unfolding q_def by (simp only: times_divide_eq_right)
  ultimately show ?thesis using n0 n1 by blast
qed

section \<open>Properties of coverage-calculator.js\<close>

lemma dropLeading_Nil: "dropLeading ws [] = []"
proof -
  have "find (\<lambda>w. w \<noteq> [] \<and> take (length w) [] = w) ws = None"
    by (auto simp add: find_None_iff)
  then show ?thesis by (subst dropLeading.simps) simp
qed

lemma trim_Nil: "trim [] = []"
  by (simp add: trim_def dropLeading_Nil)

lemma coveredCount_le: "coveredCount statements \<le> length statements"
  by (simp add: coveredCount_def)

lemma fold_globalStep:
  "fold globalStep ds (t, c) =
     (t + sum_list (map (\<lambda>d. case s d of Some st \<Rightarrow> length st | None \<Rightarrow> 0) ds),
      c + sum_list (map (\<lambda>d. case s d of Some st \<Rightarrow> coveredCount st | None \<Rightarrow> 0) ds))"
  by (induction ds arbitrary: t c) (auto split: option.splits)

lemma globalTotals_eq: "globalTotals coverage = (totalUnits coverage, coveredUnits coverage)"
  by (simp add: globalTotals_def totalUnits_def coveredUnits_def fold_globalStep)

lemma coveredUnits_le: "coveredUnits coverage \<le> totalUnits coverage"
  unfolding coveredUnits_def totalUnits_def
  by (intro sum_list_mono) (auto split: option.splits simp: coveredCount_le)

lemma changedStep_eq:
  "changedStep existsSync resolve coverage f (t, c, fd, out) =
     (t + (case statementsFor existsSync resolve coverage f of Some st \<Rightarrow> length st | None \<Rightarrow> 0),
      c + (case statementsFor existsSync resolve coverage f of Some st \<Rightarrow> coveredCount st | None \<Rightarrow> 0),
      fd @ detailsFor existsSync resolve coverage f,
      out @ linesFor existsSync resolve coverage f)"
  by (auto simp add: statementsFor_def detailsFor_def linesFor_def Let_def coveredCount_def
        split: option.splits)

lemma changedLoop_eq:
  "changedLoop existsSync resolve coverage changed (t, c, fd, out) =
     (t + changedTotal existsSync resolve coverage changed,
      c + changedCovered existsSync resolve coverage changed,
      fd @ concat (map (detailsFor existsSync resolve coverage) changed),
      out @ concat (map (linesFor existsSync resolve coverage) changed))"
  unfolding changedLoop_def changedTotal_def changedCovered_def
proof (induction changed arbitrary: t c fd out)
  case Nil
  show ?case by simp
next
  case (Cons f changed)
  show ?case
    by (simp only: fold_simps changedStep_eq Cons.IH list.map sum_list.Cons concat.simps
          append_assoc add.assoc)
qed

lemma changedCovered_le:
  "changedCovered existsSync resolve coverage changed \<le> changedTotal existsSync resolve coverage changed"
  unfolding changedCovered_def changedTotal_def
  by (intro sum_list_mono) (auto split: option.splits simp: coveredCount_le)

lemma calculateChangedFilesCoverage_eq:
  assumes "changed \<noteq> []"
  shows "calculateChangedFilesCoverage opts existsSync resolve coverage changed =
     (let t = changedTotal existsSync resolve coverage changed;
          c = changedCovered existsSync resolve coverage changed;
          p = (if 0 < t then percent c t else Fixed2 0)
      in (\<lparr>percentage = p, totalLines = t, coveredLines = c,
           files = concat (map (detailsFor existsSync resolve coverage) changed),
           message = OverallCoverage c t p\<rparr>,
          CheckingChangedFiles # map ListedFile changed
            @ concat (map (linesFor existsSync resolve coverage) changed)))"
  using assms by (simp add: calculateChangedFilesCoverage_def changedLoop_eq Let_def)

lemma percentage_range:
  assumes "c \<le> t"
  shows "\<exists>n. (if 0 < t then percent c t else Fixed2 0) = Fixed2 n \<and> 0 \<le> n \<and> n \<le> 10000
           \<and> (0 < t \<longrightarrow> \<bar>rat_of_int n - 10000 * rat_of_nat c / rat_of_nat t\<bar> \<le> 1 / 2 + 1 / 10 ^ 11)"
proof (cases "0 < t")
  case True
  from percent_bounds[OF True assms] show ?thesis using True by simp
next
  case False
  then show ?thesis by simp
qed

text \<open>
  Claim C3, amended. The global percentage is \<open>((covered / total) * 100).toFixed(2)\<close> of
  the covered and total statement counts of the whole map, computed on binary64 numbers:
  it lies between 0.00 and 100.00 and is within half a hundredth (plus at most \<open>1 / 10 ^ 11\<close>
  hundredths of floating-point error) of the exact quotient. When the total is 0 no
  division takes place and the percentage is the string \<open>0.00\<close>, not \<open>N/A\<close>. The
  changed-files percentage of a non-empty changed-file set follows the same formula and
  the same zero-total rule on the counts of the matched files.
\<close>

theorem percentage_formula_and_range:
  "calculateGlobalCoverage coverage =
     (if totalUnits coverage = 0 then Fixed2 0
      else percent (coveredUnits coverage) (totalUnits coverage))
   \<and> (\<exists>n. calculateGlobalCoverage coverage = Fixed2 n \<and> 0 \<le> n \<and> n \<le> 10000
          \<and> (0 < totalUnits coverage \<longrightarrow>
               \<bar>rat_of_int n - 10000 * rat_of_nat (coveredUnits coverage)
                    / rat_of_nat (totalUnits coverage)\<bar> \<le> 1 / 2 + 1 / 10 ^ 11))
   \<and> (changed \<noteq> [] \<longrightarrow>
        (let r = fst (calculateChangedFilesCoverage opts existsSync resolve coverage changed)
         in totalLines r = changedTotal existsSync resolve coverage changed
            \<and> coveredLines r = changedCovered existsSync resolve coverage changed
            \<and> percentage r =
                 (if totalLines r = 0 then Fixed2 0 else percent (coveredLines r) (totalLines r))
            \<and> (\<exists>n. percentage r = Fixed2 n \<and> 0 \<le> n \<and> n \<le> 10000
                   \<and> (0 < totalLines r \<longrightarrow>
                        \<bar>rat_of_int n - 10000 * rat_of_nat (coveredLines r)
                             / rat_of_nat (totalLines r)\<bar> \<le> 1 / 2 + 1 / 10 ^ 11))))"
proof (intro conjI impI)
  have g: "calculateGlobalCoverage coverage =
        (if 0 < totalUnits coverage then percent (coveredUnits coverage) (totalUnits coverage)
         else Fixed2 0)"
    by (simp add: calculateGlobalCoverage_def globalTotals_eq)
  then show "calculateGlobalCoverage coverage =
     (if totalUnits coverage = 0 then Fixed2 0
      else percent (coveredUnits coverage) (totalUnits coverage))" by simp
  from percentage_range[OF coveredUnits_le[of coverage]] g
  show "\<exists>n. calculateGlobalCoverage coverage = Fixed2 n \<and> 0 \<le> n \<and> n \<le> 10000
          \<and> (0 < totalUnits coverage \<longrightarrow>
               \<bar>rat_of_int n - 10000 * rat_of_nat (coveredUnits coverage)
                    / rat_of_nat (totalUnits coverage)\<bar> \<le> 1 / 2 + 1 / 10 ^ 11)" by simp
next
  assume ne: "changed \<noteq> []"
  from percentage_range[OF changedCovered_le[of existsSync resolve coverage changed]]
  show "let r = fst (calculateChangedFilesCoverage opts existsSync resolve coverage changed)
         in totalLines r = changedTotal existsSync resolve coverage changed
            \<and> coveredLines r = changedCovered existsSync resolve coverage changed
            \<and> percentage r =
                 (if totalLines r = 0 then Fixed2 0 else percent (coveredLines r) (totalLines r))
            \<and> (\<exists>n. percentage r = Fixed2 n \<and> 0 \<le> n \<and> n \<le> 10000
                   \<and> (0 < totalLines r \<longrightarrow>
                        \<bar>rat_of_int n - 10000 * rat_of_nat (coveredLines r)
                             / rat_of_nat (totalLines r)\<bar> \<le> 1 / 2 + 1 / 10 ^ 11))"
    by (simp add: calculateChangedFilesCoverage_eq[OF ne] Let_def)
qed

text \<open>
  Claim C3 as stated fails: an empty coverage map has no statements, and its global
  percentage is \<open>0.00\<close>; so is the changed-files percentage when no changed file has
  coverage data.
\<close>

theorem zero_total_is_not_NA:
  "totalUnits [] = 0 \<and> calculateGlobalCoverage [] = Fixed2 0 \<and> calculateGlobalCoverage [] \<noteq> NA
   \<and> totalLines (fst (calculateChangedFilesCoverage defaultOptions everyFileExists resolveInRepo
                         [] [''src/a.js''])) = 0
   \<and> percentage (fst (calculateChangedFilesCoverage defaultOptions everyFileExists resolveInRepo
                         [] [''src/a.js''])) = Fixed2 0"
  by (simp add: totalUnits_def calculateGlobalCoverage_def globalTotals_def Object_values_def
        calculateChangedFilesCoverage_def changedLoop_def findFileData_def everyFileExists_def
        Let_def)

text \<open>
  The bound on the distance to the exact quotient cannot be replaced by exact rounding:
  23 covered statements of 160 are 14.375 percent, and the quotient computed on
  binary64 numbers lies just below, so that \<open>14.37\<close> is printed.
\<close>

lemma percent_23_of_160:
  "percent 23 160 = Fixed2 1437 \<and> (10000 * 23 / 160 :: rat) = 1437 + 1 / 2"
proof -
  have "percent 23 160 = Fixed2 1437" by code_simp
  then show ?thesis by simp
qed

theorem percentage_formula_and_range_witness:
  "[''src/A.js''] \<noteq> [] \<and> totalUnits coverageAB = 15 \<and> coveredUnits coverageAB = 10
   \<and> calculateGlobalCoverage coverageAB = Fixed2 6667
   \<and> percentage (fst (calculateChangedFilesCoverage defaultOptions everyFileExists resolveInRepo
                         coverageAB [''src/A.js''])) = Fixed2 8000"
proof -
  have t: "totalUnits coverageAB = 15" by code_simp
  have c: "coveredUnits coverageAB = 10" by code_simp
  have p: "percent 10 15 = Fixed2 6667" by code_simp
  have ct: "changedTotal everyFileExists resolveInRepo coverageAB [''src/A.js''] = 10" by code_simp
  have cc: "changedCovered everyFileExists resolveInRepo coverageAB [''src/A.js''] = 8" by code_simp
  have q: "percent 8 10 = Fixed2 8000" by code_simp
  show ?thesis
    using percentage_formula_and_range[where coverage = coverageAB
        and changed = "[''src/A.js'']" and opts = defaultOptions
        and existsSync = everyFileExists and resolve = resolveInRepo]
    by (simp add: t c p ct cc q Let_def)
qed

lemma js_ge_parseFloat_int:
  assumes a: "0 \<le> a" "a < 2 ^ 46"
  shows "js_ge (parseFloat (Fixed2 n)) (of_int a) \<longleftrightarrow> a * 100 \<le> n"
proof
  assume "js_ge (parseFloat (Fixed2 n)) (of_int a)"
  then have ge: "rat_of_int a \<le> fl (of_int n / 100)" by simp
  show "a * 100 \<le> n"
  proof (rule ccontr)
    assume "\<not> a * 100 \<le> n"
    then have "n \<le> a * 100 - 1" by simp
    then have "rat_of_int n \<le> rat_of_int (a * 100 - 1)" by (simp only: of_int_le_iff)
    then have "rat_of_int n / 100 \<le> rat_of_int (128 * a - 1) / 2 ^ 7" by simp
    moreover have "\<bar>128 * a - 1\<bar> < 2 ^ 53" using a by simp
    ultimately have "fl (rat_of_int n / 100) \<le> rat_of_int (128 * a - 1) / 2 ^ 7"
      by (rule fl_le_dyadic)
    also have "\<dots> < rat_of_int a" by simp
    finally show False using ge by simp
  qed
next
  assume "a * 100 \<le> n"
  then have "rat_of_int (a * 100) \<le> rat_of_int n" by (simp only: of_int_le_iff)
  then have "rat_of_int a / 2 ^ 0 \<le> rat_of_int n / 100" by simp
  moreover have "\<bar>a\<bar> < 2 ^ 53" using a by simp
  ultimately have "rat_of_int a / 2 ^ 0 \<le> fl (rat_of_int n / 100)" by (rule fl_ge_dyadic)
  then show "js_ge (parseFloat (Fixed2 n)) (of_int a)" by simp
qed

text \<open>
  Claim C5. For a numeric percentage, the report's status is Passed exactly when the
  number read back by \<open>parseFloat\<close> is at least the threshold, so a percentage equal
  to the threshold passes; for a whole-number threshold \<open>a\<close> this is \<open>a.00 \<le>\<close> the
  percentage printed. The check of \<open>main\<close> is the same comparison with its threshold 20:
  a run for the changed files whose aggregation has the percentage \<open>n / 100\<close> ends by
  printing \<open>COVERAGE_CHECK_FAILED=false\<close> exactly when \<open>20.00 \<le> n / 100\<close>, and its report
  has the status Passed in the same case.
\<close>

theorem threshold_is_inclusive:
  assumes "percentage r = Fixed2 n"
  shows "(thresholdMet r threshold \<longleftrightarrow> threshold \<le> fl (of_int n / 100))
       \<and> (parseFloat (percentage r) = Some threshold \<longrightarrow> thresholdMet r threshold)
       \<and> (reportStatus (generateMarkdownReport globalCoverage r threshold) = Passed
            \<longleftrightarrow> threshold \<le> fl (of_int n / 100))
       \<and> (0 \<le> a \<and> a < 2 ^ 46 \<longrightarrow> (thresholdMet r (of_int a) \<longleftrightarrow> a * 100 \<le> n))
       \<and> (mainThresholdMet r \<longleftrightarrow> 20 \<le> fl (of_int n / 100))
       \<and> (mainThresholdMet r \<longleftrightarrow> 2000 \<le> n)
       \<and> (\<not> global opts \<and> changedFiles opts
            \<and> r = fst (calculateChangedFilesCoverage opts existsSync resolve coverage
                         (fst (getChangedFiles opts execSync))) \<longrightarrow>
            main opts (Parsed coverage) execSync existsSync resolve =
              (0, snd (getChangedFiles opts execSync)
                  @ snd (calculateChangedFilesCoverage opts existsSync resolve coverage
                           (fst (getChangedFiles opts execSync)))
                  @ [CHANGED_FILES_COVERAGE (Fixed2 n),
                     CHANGED_FILES_DETAILS (generateMarkdownReport None r 20),
                     COVERAGE_CHECK_FAILED (\<not> 2000 \<le> n)])
            \<and> last (snd (main opts (Parsed coverage) execSync existsSync resolve))
                  = COVERAGE_CHECK_FAILED (\<not> 2000 \<le> n)
            \<and> (reportStatus (generateMarkdownReport None r 20) = Passed \<longleftrightarrow> 2000 \<le> n))"
proof -
  have m: "js_ge (parseFloat (Fixed2 n)) (of_int 20) \<longleftrightarrow> 20 * 100 \<le> n"
    by (rule js_ge_parseFloat_int) simp_all
  have i: "0 \<le> a \<and> a < 2 ^ 46 \<longrightarrow> (js_ge (parseFloat (Fixed2 n)) (of_int a) \<longleftrightarrow> a * 100 \<le> n)"
    using js_ge_parseFloat_int[of a n] by blast
  have first: "(thresholdMet r threshold \<longleftrightarrow> threshold \<le> fl (of_int n / 100))
       \<and> (parseFloat (percentage r) = Some threshold \<longrightarrow> thresholdMet r threshold)
       \<and> (reportStatus (generateMarkdownReport globalCoverage r threshold) = Passed
            \<longleftrightarrow> threshold \<le> fl (of_int n / 100))
       \<and> (0 \<le> a \<and> a < 2 ^ 46 \<longrightarrow> (thresholdMet r (of_int a) \<longleftrightarrow> a * 100 \<le> n))
       \<and> (mainThresholdMet r \<longleftrightarrow> 20 \<le> fl (of_int n / 100))
       \<and> (mainThresholdMet r \<longleftrightarrow> 2000 \<le> n)"
    using assms m i by (simp add: thresholdMet_def generateMarkdownReport_def mainThresholdMet_def)
  have mt: "mainThresholdMet r \<longleftrightarrow> 2000 \<le> n" using first by blast
  have rs: "reportStatus (generateMarkdownReport None r 20) = Passed \<longleftrightarrow> 2000 \<le> n"
    using assms m by (simp add: thresholdMet_def generateMarkdownReport_def)
  have run: "\<not> global opts \<and> changedFiles opts
            \<and> r = fst (calculateChangedFilesCoverage opts existsSync resolve coverage
                         (fst (getChangedFiles opts execSync))) \<longrightarrow>
            main opts (Parsed coverage) execSync existsSync resolve =
              (0, snd (getChangedFiles opts execSync)
                  @ snd (calculateChangedFilesCoverage opts existsSync resolve coverage
                           (fst (getChangedFiles opts execSync)))
                  @ [CHANGED_FILES_COVERAGE (Fixed2 n),
                     CHANGED_FILES_DETAILS (generateMarkdownReport None r 20),
                     COVERAGE_CHECK_FAILED (\<not> 2000 \<le> n)])"
  proof
    assume h: "\<not> global opts \<and> changedFiles opts
            \<and> r = fst (calculateChangedFilesCoverage opts existsSync resolve coverage
                         (fst (getChangedFiles opts execSync)))"
    obtain changed out1 where g: "getChangedFiles opts execSync = (changed, out1)"
      by (cases "getChangedFiles opts execSync")
    obtain res out2 where c: "calculateChangedFilesCoverage opts existsSync resolve coverage changed
        = (res, out2)"
      by (cases "calculateChangedFilesCoverage opts existsSync resolve coverage changed")
    have r: "res = r" using h g c by simp
    show "main opts (Parsed coverage) execSync existsSync resolve =
              (0, snd (getChangedFiles opts execSync)
                  @ snd (calculateChangedFilesCoverage opts existsSync resolve coverage
                           (fst (getChangedFiles opts execSync)))
                  @ [CHANGED_FILES_COVERAGE (Fixed2 n),
                     CHANGED_FILES_DETAILS (generateMarkdownReport None r 20),
                     COVERAGE_CHECK_FAILED (\<not> 2000 \<le> n)])"
      using h assms mt by (simp add: main_def g c r)
  qed
  have lastc: "\<not> global opts \<and> changedFiles opts
            \<and> r = fst (calculateChangedFilesCoverage opts existsSync resolve coverage
                         (fst (getChangedFiles opts execSync))) \<longrightarrow>
            last (snd (main opts (Parsed coverage) execSync existsSync resolve))
                  = COVERAGE_CHECK_FAILED (\<not> 2000 \<le> n)"
  proof
    assume "\<not> global opts \<and> changedFiles opts
            \<and> r = fst (calculateChangedFilesCoverage opts existsSync resolve coverage
                         (fst (getChangedFiles opts execSync)))"
    with run have "main opts (Parsed coverage) execSync existsSync resolve =
              (0, snd (getChangedFiles opts execSync)
                  @ snd (calculateChangedFilesCoverage opts existsSync resolve coverage
                           (fst (getChangedFiles opts execSync)))
                  @ [CHANGED_FILES_COVERAGE (Fixed2 n),
                     CHANGED_FILES_DETAILS (generateMarkdownReport None r 20),
                     COVERAGE_CHECK_FAILED (\<not> 2000 \<le> n)])" by blast
    then show "last (snd (main opts (Parsed coverage) execSync existsSync resolve))
                  = COVERAGE_CHECK_FAILED (\<not> 2000 \<le> n)" by simp
  qed
  show ?thesis using first run lastc rs by blast
qed

theorem threshold_is_inclusive_witness:
  "percentage (fst (calculateChangedFilesCoverage defaultOptions everyFileExists resolveInRepo
                      coverageAB [''src/A.js''])) = Fixed2 8000
   \<and> thresholdMet (fst (calculateChangedFilesCoverage defaultOptions everyFileExists resolveInRepo
                      coverageAB [''src/A.js''])) 80
   \<and> thresholdMet (fst (calculateChangedFilesCoverage defaultOptions everyFileExists resolveInRepo
                      coverageAB [''src/A.js''])) 70
   \<and> \<not> thresholdMet (fst (calculateChangedFilesCoverage defaultOptions everyFileExists resolveInRepo
                      coverageAB [''src/A.js''])) 90
   \<and> mainThresholdMet (fst (calculateChangedFilesCoverage defaultOptions everyFileExists resolveInRepo
                      coverageAB [''src/A.js'']))
   \<and> \<not> global defaultOptions \<and> changedFiles defaultOptions
   \<and> fst (getChangedFiles defaultOptions gitPrintsA) = [''src/A.js'']
   \<and> last (snd (main defaultOptions (Parsed coverageAB) gitPrintsA everyFileExists resolveInRepo))
       = COVERAGE_CHECK_FAILED False"
proof -
  have p: "percentage (fst (calculateChangedFilesCoverage defaultOptions everyFileExists resolveInRepo
                      coverageAB [''src/A.js''])) = Fixed2 8000" by code_simp
  have f: "fl 80 = 80" by code_simp
  have g: "fst (getChangedFiles defaultOptions gitPrintsA) = [''src/A.js'']" by code_simp
  have o: "\<not> global defaultOptions \<and> changedFiles defaultOptions"
    by (simp add: defaultOptions_def)
  show ?thesis
    using threshold_is_inclusive[OF p, where threshold = 80 and a = 80 and opts = defaultOptions
        and existsSync = everyFileExists and resolve = resolveInRepo and coverage = coverageAB
        and execSync = gitPrintsA]
      threshold_is_inclusive[OF p, where threshold = 70 and a = 70]
      threshold_is_inclusive[OF p, where threshold = 90 and a = 90] p g o
    by (simp add: f)
qed

text \<open>
  Claim C1, amended. For every coverage map and every threshold, the changed-files
  aggregation of an empty changed-file set is the fixed result with percentage \<open>N/A\<close>,
  whatever the coverage map holds, and the threshold is not met: \<open>parseFloat('N/A')\<close> is
  NaN, so the report status is Failed, and \<open>main\<close> prints \<open>COVERAGE_CHECK_FAILED=true\<close>.
\<close>

theorem empty_changed_set_is_NA_and_fails:
  "calculateChangedFilesCoverage opts existsSync resolve coverage [] =
     (\<lparr>percentage = NA, totalLines = 0, coveredLines = 0, files = [],
       message = NoFilesChanged (filePatterns opts) (sourceDir opts)\<rparr>, [])
   \<and> \<not> thresholdMet (fst (calculateChangedFilesCoverage opts existsSync resolve coverage [])) threshold
   \<and> reportStatus (generateMarkdownReport globalCoverage
          (fst (calculateChangedFilesCoverage opts existsSync resolve coverage [])) threshold) = Failed
   \<and> \<not> mainThresholdMet (fst (calculateChangedFilesCoverage opts existsSync resolve coverage []))
   \<and> (\<not> global opts \<and> changedFiles opts \<and> fst (getChangedFiles opts execSync) = [] \<longrightarrow>
        main opts (Parsed coverage) execSync existsSync resolve =
          (0, snd (getChangedFiles opts execSync) @
              [CHANGED_FILES_COVERAGE NA,
               CHANGED_FILES_DETAILS
                 \<lparr>actual = NA, required = 20, reportStatus = Failed,
                  details = Inr (NoFilesChanged (filePatterns opts) (sourceDir opts))\<rparr>,
               COVERAGE_CHECK_FAILED True]))"
  by (auto simp add: calculateChangedFilesCoverage_def thresholdMet_def generateMarkdownReport_def
        mainThresholdMet_def main_def split: prod.splits)

theorem empty_changed_set_is_NA_and_fails_witness:
  "\<not> global defaultOptions \<and> changedFiles defaultOptions
   \<and> fst (getChangedFiles defaultOptions gitPrintsNothing) = []
   \<and> main defaultOptions (Parsed coverageAB) gitPrintsNothing everyFileExists resolveInRepo =
          (0, [CHANGED_FILES_COVERAGE NA,
               CHANGED_FILES_DETAILS
                 \<lparr>actual = NA, required = 20, reportStatus = Failed,
                  details = Inr (NoFilesChanged ''.ts,.tsx,.js,.jsx'' ''src/'')\<rparr>,
               COVERAGE_CHECK_FAILED True])"
proof -
  have g: "getChangedFiles defaultOptions gitPrintsNothing = ([], [])"
    by (simp add: getChangedFiles_def gitPrintsNothing_def trim_Nil)
  show ?thesis
    using empty_changed_set_is_NA_and_fails[where opts = defaultOptions
        and existsSync = everyFileExists and resolve = resolveInRepo and coverage = coverageAB
        and threshold = 20 and execSync = gitPrintsNothing] g
    by (simp add: defaultOptions_def)
qed

text \<open>
  Claim C1 as stated fails: with no changed file the coverage check is marked failed.
\<close>

theorem empty_changed_set_check_is_failed:
  "percentage (fst (calculateChangedFilesCoverage defaultOptions everyFileExists resolveInRepo
                      coverageAB [])) = NA
   \<and> \<not> mainThresholdMet (fst (calculateChangedFilesCoverage defaultOptions everyFileExists
                      resolveInRepo coverageAB []))
   \<and> last (snd (main defaultOptions (Parsed coverageAB) gitPrintsNothing everyFileExists
                      resolveInRepo)) = COVERAGE_CHECK_FAILED True"
  by (simp add: calculateChangedFilesCoverage_def mainThresholdMet_def main_def
        getChangedFiles_def gitPrintsNothing_def trim_Nil defaultOptions_def)

lemma statementsFor_missing: "\<not> existsSync f \<Longrightarrow> statementsFor existsSync resolve coverage f = None"
  by (simp add: statementsFor_def)

lemma statementsFor_SomeD:
  "statementsFor existsSync resolve coverage f = Some st \<Longrightarrow>
     existsSync f \<and> (\<exists>d. findFileData resolve coverage f = Some d \<and> s d = Some st)"
  by (auto simp add: statementsFor_def split: if_splits option.splits)

lemma detailsFor_D:
  "d \<in> set (detailsFor existsSync resolve coverage f) \<Longrightarrow>
     fileName d = f \<and> (\<exists>st. statementsFor existsSync resolve coverage f = Some st \<and> 0 < length st
        \<and> covered d = coveredCount st \<and> total d = length st)"
  by (cases "statementsFor existsSync resolve coverage f")
     (auto simp add: detailsFor_def split: if_splits)

lemma linesFor_D:
  "x \<in> set (linesFor existsSync resolve coverage f) \<Longrightarrow>
     existsSync f \<and>
     ((x = NoCoverageDataFound f \<and> statementsFor existsSync resolve coverage f = None)
      \<or> (\<exists>st. x = FileCoverage f (coveredCount st) (length st)
                     (percent (coveredCount st) (length st))
               \<and> statementsFor existsSync resolve coverage f = Some st))"
  by (cases "statementsFor existsSync resolve coverage f")
     (auto simp add: linesFor_def split: if_splits)

lemma changedTotal_filter:
  assumes "\<And>f. f \<in> set changed \<Longrightarrow> \<not> P f \<Longrightarrow> statementsFor existsSync resolve coverage f = None"
  shows "changedTotal existsSync resolve coverage (filter P changed)
           = changedTotal existsSync resolve coverage changed"
  using assms unfolding changedTotal_def by (induction changed) auto

lemma changedCovered_filter:
  assumes "\<And>f. f \<in> set changed \<Longrightarrow> \<not> P f \<Longrightarrow> statementsFor existsSync resolve coverage f = None"
  shows "changedCovered existsSync resolve coverage (filter P changed)
           = changedCovered existsSync resolve coverage changed"
  using assms unfolding changedCovered_def by (induction changed) auto

lemma details_filter:
  assumes "\<And>f. f \<in> set changed \<Longrightarrow> \<not> P f \<Longrightarrow> statementsFor existsSync resolve coverage f = None"
  shows "concat (map (detailsFor existsSync resolve coverage) (filter P changed))
           = concat (map (detailsFor existsSync resolve coverage) changed)"
  using assms by (induction changed) (auto simp add: detailsFor_def)

lemma lines_filter_exists:
  "concat (map (linesFor existsSync resolve coverage) (filter existsSync changed))
     = concat (map (linesFor existsSync resolve coverage) changed)"
  by (induction changed) (auto simp add: linesFor_def)

lemma findFileData_None:
  "findFileData resolve coverage f = None \<longleftrightarrow>
     (\<forall>d \<in> set (Object_values coverage). \<not> matches resolve f d)"
  by (auto simp add: findFileData_def matches_def find_None_iff)

lemma findFileData_Some:
  "findFileData resolve coverage f = Some d \<longleftrightarrow>
     (\<exists>i < length coverage. d = snd (coverage ! i) \<and> matches resolve f d
        \<and> (\<forall>j < i. \<not> matches resolve f (snd (coverage ! j))))"
  by (auto simp add: findFileData_def matches_def find_Some_iff Object_values_def)

text \<open>
  Claim C9. A changed file that does not exist on the filesystem leaves the accumulator
  of the loop as it is: the loop over the changed files equals the loop over the
  existing ones. Such a file adds nothing to the totals, has no per-file entry, and
  neither a coverage line nor a "No coverage data found" line is printed for it.
\<close>

theorem missing_files_are_skipped:
  assumes "\<not> existsSync f"
  shows "changedStep existsSync resolve coverage f acc = acc
     \<and> changedLoop existsSync resolve coverage changed acc
         = changedLoop existsSync resolve coverage (filter existsSync changed) acc
     \<and> (changed \<noteq> [] \<longrightarrow>
          (case calculateChangedFilesCoverage opts existsSync resolve coverage changed of
             (r, out) \<Rightarrow>
               NoCoverageDataFound f \<notin> set out
               \<and> (\<forall>c t p. FileCoverage f c t p \<notin> set out)
               \<and> (\<forall>d \<in> set (files r). fileName d \<noteq> f)
               \<and> totalLines r = changedTotal existsSync resolve coverage (filter (\<lambda>g. g \<noteq> f) changed)
               \<and> coveredLines r
                    = changedCovered existsSync resolve coverage (filter (\<lambda>g. g \<noteq> f) changed)))"
proof (intro conjI impI)
  obtain t c fd out where acc: "acc = (t, c, fd, out)" by (cases acc) auto
  show "changedStep existsSync resolve coverage f acc = acc"
    using assms unfolding acc by simp
  have a: "changedTotal existsSync resolve coverage (filter existsSync changed)
             = changedTotal existsSync resolve coverage changed"
    by (rule changedTotal_filter) (simp add: statementsFor_missing)
  have b: "changedCovered existsSync resolve coverage (filter existsSync changed)
             = changedCovered existsSync resolve coverage changed"
    by (rule changedCovered_filter) (simp add: statementsFor_missing)
  have c: "concat (map (detailsFor existsSync resolve coverage) (filter existsSync changed))
             = concat (map (detailsFor existsSync resolve coverage) changed)"
    by (rule details_filter) (simp add: statementsFor_missing)
  show "changedLoop existsSync resolve coverage changed acc
         = changedLoop existsSync resolve coverage (filter existsSync changed) acc"
    unfolding acc changedLoop_eq by (simp only: a b c lines_filter_exists)
next
  assume ne: "changed \<noteq> []"
  have a: "changedTotal existsSync resolve coverage (filter (\<lambda>g. g \<noteq> f) changed)
             = changedTotal existsSync resolve coverage changed"
    by (rule changedTotal_filter) (use assms in \<open>simp add: statementsFor_missing\<close>)
  have b: "changedCovered existsSync resolve coverage (filter (\<lambda>g. g \<noteq> f) changed)
             = changedCovered existsSync resolve coverage changed"
    by (rule changedCovered_filter) (use assms in \<open>simp add: statementsFor_missing\<close>)
  have l1: "\<And>g. NoCoverageDataFound f \<notin> set (linesFor existsSync resolve coverage g)"
    using assms by (auto dest: linesFor_D)
  have l2: "\<And>g c t p. FileCoverage f c t p \<notin> set (linesFor existsSync resolve coverage g)"
    using assms by (auto dest: linesFor_D)
  have d: "\<And>x g. x \<in> set (detailsFor existsSync resolve coverage g) \<Longrightarrow> fileName x \<noteq> f"
    using assms by (auto dest!: detailsFor_D statementsFor_SomeD)
  show "case calculateChangedFilesCoverage opts existsSync resolve coverage changed of
             (r, out) \<Rightarrow>
               NoCoverageDataFound f \<notin> set out
               \<and> (\<forall>c t p. FileCoverage f c t p \<notin> set out)
               \<and> (\<forall>d \<in> set (files r). fileName d \<noteq> f)
               \<and> totalLines r = changedTotal existsSync resolve coverage (filter (\<lambda>g. g \<noteq> f) changed)
               \<and> coveredLines r
                    = changedCovered existsSync resolve coverage (filter (\<lambda>g. g \<noteq> f) changed)"
    unfolding calculateChangedFilesCoverage_eq[OF ne] Let_def
    using d by (auto simp add: a b l1 l2)
qed

theorem missing_files_are_skipped_witness:
  "\<not> noFileExists ''src/deleted.js''
   \<and> calculateChangedFilesCoverage defaultOptions noFileExists resolveInRepo coverageAB
         [''src/deleted.js''] =
       (\<lparr>percentage = Fixed2 0, totalLines = 0, coveredLines = 0, files = [],
         message = OverallCoverage 0 0 (Fixed2 0)\<rparr>,
        [CheckingChangedFiles, ListedFile ''src/deleted.js''])"
proof -
  have n: "\<not> noFileExists ''src/deleted.js''" by (simp add: noFileExists_def)
  have "changedStep noFileExists resolveInRepo coverageAB ''src/deleted.js''
          (0, 0, [], [CheckingChangedFiles, ListedFile ''src/deleted.js''])
        = (0, 0, [], [CheckingChangedFiles, ListedFile ''src/deleted.js''])"
    using missing_files_are_skipped[where existsSync = noFileExists and f = "''src/deleted.js''"
        and resolve = resolveInRepo and coverage = coverageAB
        and acc = "(0, 0, [], [CheckingChangedFiles, ListedFile ''src/deleted.js''])", OF n]
    by blast
  then show ?thesis
    using n by (simp add: calculateChangedFilesCoverage_def changedLoop_def Let_def)
qed

text \<open>
  Claim C7, amended. In the aggregation of a non-empty changed-file set, every changed
  file that exists on the filesystem and has no matching coverage-map entry is reported
  by a "No coverage data found" line; the totals are those of the changed files with a
  matching entry, so a file without one is in neither the numerator nor the denominator
  of the percentage; and every per-file entry belongs to an existing changed file with
  a matching entry that has a statement map, whose counts it shows.
\<close>

theorem unmatched_files_reported_and_excluded:
  assumes "changed \<noteq> []"
  shows "case calculateChangedFilesCoverage opts existsSync resolve coverage changed of
     (r, out) \<Rightarrow>
       (\<forall>f \<in> set changed. existsSync f \<and> findFileData resolve coverage f = None
            \<longrightarrow> NoCoverageDataFound f \<in> set out)
       \<and> totalLines r = changedTotal existsSync resolve coverage
                            (filter (\<lambda>f. findFileData resolve coverage f \<noteq> None) changed)
       \<and> coveredLines r = changedCovered existsSync resolve coverage
                            (filter (\<lambda>f. findFileData resolve coverage f \<noteq> None) changed)
       \<and> percentage r = (if 0 < totalLines r then percent (coveredLines r) (totalLines r)
                         else Fixed2 0)
       \<and> (\<forall>d \<in> set (files r). fileName d \<in> set changed \<and> existsSync (fileName d)
              \<and> (\<exists>e st. findFileData resolve coverage (fileName d) = Some e \<and> s e = Some st
                     \<and> covered d = coveredCount st \<and> total d = length st))"
proof -
  have none: "\<And>f. \<not> findFileData resolve coverage f \<noteq> None
        \<Longrightarrow> statementsFor existsSync resolve coverage f = None"
    by (simp add: statementsFor_def)
  have a: "changedTotal existsSync resolve coverage
             (filter (\<lambda>f. findFileData resolve coverage f \<noteq> None) changed)
             = changedTotal existsSync resolve coverage changed"
    by (rule changedTotal_filter) (rule none)
  have b: "changedCovered existsSync resolve coverage
             (filter (\<lambda>f. findFileData resolve coverage f \<noteq> None) changed)
             = changedCovered existsSync resolve coverage changed"
    by (rule changedCovered_filter) (rule none)
  have l: "\<And>f. existsSync f \<Longrightarrow> findFileData resolve coverage f = None
        \<Longrightarrow> NoCoverageDataFound f \<in> set (linesFor existsSync resolve coverage f)"
    by (simp add: linesFor_def statementsFor_def)
  have d: "\<And>x g. x \<in> set (detailsFor existsSync resolve coverage g) \<Longrightarrow>
        fileName x = g \<and> existsSync g
        \<and> (\<exists>e st. findFileData resolve coverage g = Some e \<and> s e = Some st
               \<and> covered x = coveredCount st \<and> total x = length st)"
    by (auto dest!: detailsFor_D statementsFor_SomeD)
  have r1: "\<forall>f \<in> set changed. existsSync f \<and> findFileData resolve coverage f = None
        \<longrightarrow> NoCoverageDataFound f
              \<in> set (CheckingChangedFiles # map ListedFile changed
                       @ concat (map (linesFor existsSync resolve coverage) changed))"
    using l by auto
  have r5: "\<forall>x \<in> set (concat (map (detailsFor existsSync resolve coverage) changed)).
        fileName x \<in> set changed \<and> existsSync (fileName x)
        \<and> (\<exists>e st. findFileData resolve coverage (fileName x) = Some e \<and> s e = Some st
               \<and> covered x = coveredCount st \<and> total x = length st)"
  proof
    fix x
    assume "x \<in> set (concat (map (detailsFor existsSync resolve coverage) changed))"
    then obtain g where g: "g \<in> set changed" "x \<in> set (detailsFor existsSync resolve coverage g)"
      by auto
    from d[OF g(2)] g(1)
    show "fileName x \<in> set changed \<and> existsSync (fileName x)
        \<and> (\<exists>e st. findFileData resolve coverage (fileName x) = Some e \<and> s e = Some st
               \<and> covered x = coveredCount st \<and> total x = length st)"
      by simp
  qed
  show ?thesis
    unfolding calculateChangedFilesCoverage_eq[OF assms] Let_def
    using r1 r5 by (simp add: a b del: not_None_eq)
qed

theorem unmatched_files_reported_and_excluded_witness:
  "[''src/A.js'', ''src/new.js''] \<noteq> []
   \<and> findFileData resolveInRepo coverageAB ''src/new.js'' = None
   \<and> calculateChangedFilesCoverage defaultOptions everyFileExists resolveInRepo coverageAB
         [''src/A.js'', ''src/new.js''] =
       (\<lparr>percentage = Fixed2 8000, totalLines = 10, coveredLines = 8,
         files = [\<lparr>fileName = ''src/A.js'', covered = 8, total = 10,
                   filePercentage = Fixed2 8000\<rparr>],
         message = OverallCoverage 8 10 (Fixed2 8000)\<rparr>,
        [CheckingChangedFiles, ListedFile ''src/A.js'', ListedFile ''src/new.js'',
         FileCoverage ''src/A.js'' 8 10 (Fixed2 8000), NoCoverageDataFound ''src/new.js''])"
proof -
  have e: "calculateChangedFilesCoverage defaultOptions everyFileExists resolveInRepo coverageAB
         [''src/A.js'', ''src/new.js''] =
       (\<lparr>percentage = Fixed2 8000, totalLines = 10, coveredLines = 8,
         files = [\<lparr>fileName = ''src/A.js'', covered = 8, total = 10,
                   filePercentage = Fixed2 8000\<rparr>],
         message = OverallCoverage 8 10 (Fixed2 8000)\<rparr>,
        [CheckingChangedFiles, ListedFile ''src/A.js'', ListedFile ''src/new.js'',
         FileCoverage ''src/A.js'' 8 10 (Fixed2 8000), NoCoverageDataFound ''src/new.js''])"
    by code_simp
  have f: "findFileData resolveInRepo coverageAB ''src/new.js'' = None" by code_simp
  show ?thesis
    using unmatched_files_reported_and_excluded[where changed = "[''src/A.js'', ''src/new.js'']"
        and opts = defaultOptions and existsSync = everyFileExists and resolve = resolveInRepo
        and coverage = coverageAB] e f
    by simp
qed

text \<open>
  Claim C7 as stated fails for a changed file that is not on the filesystem (a deleted
  file of the diff): it has no matching entry, and nothing is reported for it.
\<close>

theorem unmatched_missing_file_not_reported:
  "findFileData resolveInRepo coverageAB ''src/deleted.js'' = None
   \<and> NoCoverageDataFound ''src/deleted.js''
        \<notin> set (snd (calculateChangedFilesCoverage defaultOptions noFileExists resolveInRepo
                        coverageAB [''src/deleted.js'']))"
  by (simp add: calculateChangedFilesCoverage_def changedLoop_def Let_def noFileExists_def
        findFileData_def Object_values_def coverageAB_def resolveInRepo_def endsWith_def)

text \<open>
  Claim C6, amended. The entry located for a changed path is the first entry, in the
  order of the coverage map, whose path equals the resolved absolute path or ends with
  the changed path; exact matches have no precedence. A changed path that is a suffix
  of the path of some entry is therefore always matched (by that entry when no other
  entry matches), and for a file on the filesystem the statement counts of the entry
  found are added to the totals.
\<close>

theorem first_matching_entry_is_used:
  "(findFileData resolve coverage f = None \<longleftrightarrow>
      (\<forall>d \<in> set (Object_values coverage). \<not> matches resolve f d))
   \<and> (findFileData resolve coverage f = Some d \<longleftrightarrow>
        (\<exists>i < length coverage. d = snd (coverage ! i) \<and> matches resolve f d
           \<and> (\<forall>j < i. \<not> matches resolve f (snd (coverage ! j)))))
   \<and> (e \<in> set (Object_values coverage) \<and> path e = prefix @ f \<longrightarrow>
        (\<exists>d'. findFileData resolve coverage f = Some d' \<and> matches resolve f d'
           \<and> ((\<forall>x \<in> set (Object_values coverage). matches resolve f x \<longrightarrow> x = e) \<longrightarrow> d' = e)))
   \<and> (existsSync f \<and> findFileData resolve coverage f = Some d \<and> s d = Some statements \<longrightarrow>
        fst (changedStep existsSync resolve coverage f (t, c, fd, out)) = t + length statements
        \<and> fst (snd (changedStep existsSync resolve coverage f (t, c, fd, out)))
              = c + coveredCount statements)"
proof (intro conjI impI)
  show "findFileData resolve coverage f = None \<longleftrightarrow>
      (\<forall>d \<in> set (Object_values coverage). \<not> matches resolve f d)"
    by (rule findFileData_None)
  show "findFileData resolve coverage f = Some d \<longleftrightarrow>
        (\<exists>i < length coverage. d = snd (coverage ! i) \<and> matches resolve f d
           \<and> (\<forall>j < i. \<not> matches resolve f (snd (coverage ! j))))"
    by (rule findFileData_Some)
next
  assume a: "e \<in> set (Object_values coverage) \<and> path e = prefix @ f"
  then have m: "matches resolve f e" by (simp add: matches_def endsWith_def)
  with a have "findFileData resolve coverage f \<noteq> None" by (auto simp add: findFileData_None)
  then obtain d' where d': "findFileData resolve coverage f = Some d'" by auto
  then have md: "matches resolve f d'" and ind: "d' \<in> set (Object_values coverage)"
    by (auto simp add: findFileData_Some Object_values_def)
  show "\<exists>d'. findFileData resolve coverage f = Some d' \<and> matches resolve f d'
           \<and> ((\<forall>x \<in> set (Object_values coverage). matches resolve f x \<longrightarrow> x = e) \<longrightarrow> d' = e)"
    using d' md ind by auto
next
  assume a: "existsSync f \<and> findFileData resolve coverage f = Some d \<and> s d = Some statements"
  then have "statementsFor existsSync resolve coverage f = Some statements"
    by (simp add: statementsFor_def)
  then show "fst (changedStep existsSync resolve coverage f (t, c, fd, out)) = t + length statements"
    and "fst (snd (changedStep existsSync resolve coverage f (t, c, fd, out)))
              = c + coveredCount statements"
    by (simp_all add: changedStep_eq del: changedStep.simps)
qed

theorem first_matching_entry_is_used_witness:
  "snd (coverageAB ! 0) \<in> set (Object_values coverageAB)
   \<and> path (snd (coverageAB ! 0)) = ''/repo/'' @ ''src/A.js''
   \<and> everyFileExists ''src/A.js''
   \<and> findFileData (\<lambda>f. ''/ci/'' @ f) coverageAB ''src/A.js'' = Some (snd (coverageAB ! 0))
   \<and> fst (changedStep everyFileExists (\<lambda>f. ''/ci/'' @ f) coverageAB ''src/A.js'' (0, 0, [], [])) = 10
   \<and> fst (snd (changedStep everyFileExists (\<lambda>f. ''/ci/'' @ f) coverageAB ''src/A.js''
                   (0, 0, [], []))) = 8"
proof -
  have a: "snd (coverageAB ! 0) \<in> set (Object_values coverageAB)" by code_simp
  have b: "path (snd (coverageAB ! 0)) = ''/repo/'' @ ''src/A.js''" by code_simp
  have c: "findFileData (\<lambda>f. ''/ci/'' @ f) coverageAB ''src/A.js'' = Some (snd (coverageAB ! 0))"
    by code_simp
  have d: "s (snd (coverageAB ! 0)) = Some [1, 1, 3, 1, 1, 2, 1, 1, 0, 0]" by code_simp
  have e: "everyFileExists ''src/A.js''" by (simp add: everyFileExists_def)
  have f: "coveredCount [1, 1, 3, 1, 1, 2, 1, 1, 0, 0] = 8" by code_simp
  show ?thesis
    using first_matching_entry_is_used[where resolve = "\<lambda>f. ''/ci/'' @ f"
        and coverage = coverageAB and f = "''src/A.js''" and d = "snd (coverageAB ! 0)"
        and e = "snd (coverageAB ! 0)" and prefix = "''/repo/''" and existsSync = everyFileExists
        and statements = "[1, 1, 3, 1, 1, 2, 1, 1, 0, 0]" and t = 0 and c = 0 and fd = "[]"
        and out = "[]"] a b c d e f
    by simp
qed

text \<open>
  Claim C6 as stated fails: an exact absolute-path match does not come first. Here the
  second entry has the resolved path of the changed file, and the entry found is the
  first one, whose path only ends with the changed path; its counts are aggregated.
\<close>

theorem suffix_match_shadows_exact_match:
  "path (snd (monorepoCoverage ! 1)) = resolveInRepo ''src/x.js''
   \<and> findFileData resolveInRepo monorepoCoverage ''src/x.js'' = Some (snd (monorepoCoverage ! 0))
   \<and> path (snd (monorepoCoverage ! 0)) \<noteq> resolveInRepo ''src/x.js''
   \<and> fst (calculateChangedFilesCoverage defaultOptions everyFileExists resolveInRepo
            monorepoCoverage [''src/x.js'']) =
       \<lparr>percentage = Fixed2 0, totalLines = 1, coveredLines = 0,
        files = [\<lparr>fileName = ''src/x.js'', covered = 0, total = 1, filePercentage = Fixed2 0\<rparr>],
        message = OverallCoverage 0 1 (Fixed2 0)\<rparr>"
  by code_simp

lemma fetch_is_not_diff: "fetchCommand opts \<noteq> diffCommand opts"
  by (simp add: fetchCommand_def diffCommand_def Let_def)

lemma grepLines_Nil: "grepLines keeps [] = []"
  by (simp add: grepLines_def textLines_def)

text \<open>
  Claim C8, amended. When \<open>execSync\<close> throws, for the fetch of the base branch or for
  the diff, \<open>getChangedFiles\<close> returns the empty list and prints the error; \<open>main\<close> then
  still prints its report and ends with status 0. Under the shell this is the case of
  a failed fetch. A failure of \<open>git diff\<close> itself does not make \<open>execSync\<close> throw, since
  the pipeline ends in \<open>|| true\<close>: the result is then read from whatever \<open>git diff\<close>
  wrote to its standard output, the empty list when it wrote nothing, and no warning
  is printed.
\<close>

theorem thrown_failure_is_warned_masked_diff_failure_is_not:
  "((execSync (fetchCommand opts) = Inl error
      \<or> ((\<exists>out. execSync (fetchCommand opts) = Inr out) \<and> execSync (diffCommand opts) = Inl error))
     \<longrightarrow> getChangedFiles opts execSync = ([], [FailedToGetChangedFiles error])
         \<and> (\<not> global opts \<and> changedFiles opts \<longrightarrow>
              main opts (Parsed coverage) execSync existsSync resolve =
                (0, [FailedToGetChangedFiles error,
                     CHANGED_FILES_COVERAGE NA,
                     CHANGED_FILES_DETAILS
                       \<lparr>actual = NA, required = 20, reportStatus = Failed,
                        details = Inr (NoFilesChanged (filePatterns opts) (sourceDir opts))\<rparr>,
                     COVERAGE_CHECK_FAILED True])))
   \<and> (exitStatus fetchRun \<noteq> 0 \<longrightarrow>
        getChangedFiles opts (shell opts fetchRun diffRun keeps)
          = ([], [FailedToGetChangedFiles (commandFailed (fetchCommand opts) fetchRun)]))
   \<and> (exitStatus fetchRun = 0 \<longrightarrow>
        getChangedFiles opts (shell opts fetchRun diffRun keeps)
          = (changedOf (grepLines keeps (stdout diffRun)), []))
   \<and> (exitStatus fetchRun = 0 \<and> exitStatus diffRun \<noteq> 0 \<and> stdout diffRun = [] \<longrightarrow>
        getChangedFiles opts (shell opts fetchRun diffRun keeps) = ([], []))"
proof (intro conjI impI)
  assume a: "execSync (fetchCommand opts) = Inl error
      \<or> ((\<exists>out. execSync (fetchCommand opts) = Inr out) \<and> execSync (diffCommand opts) = Inl error)"
  then show g: "getChangedFiles opts execSync = ([], [FailedToGetChangedFiles error])"
    by (auto simp add: getChangedFiles_def)
  assume "\<not> global opts \<and> changedFiles opts"
  then show "main opts (Parsed coverage) execSync existsSync resolve =
                (0, [FailedToGetChangedFiles error,
                     CHANGED_FILES_COVERAGE NA,
                     CHANGED_FILES_DETAILS
                       \<lparr>actual = NA, required = 20, reportStatus = Failed,
                        details = Inr (NoFilesChanged (filePatterns opts) (sourceDir opts))\<rparr>,
                     COVERAGE_CHECK_FAILED True])"
    by (simp add: main_def g calculateChangedFilesCoverage_def generateMarkdownReport_def
          thresholdMet_def mainThresholdMet_def)
next
  assume "exitStatus fetchRun \<noteq> 0"
  then show "getChangedFiles opts (shell opts fetchRun diffRun keeps)
          = ([], [FailedToGetChangedFiles (commandFailed (fetchCommand opts) fetchRun)])"
    by (simp add: getChangedFiles_def shell_def)
next
  assume "exitStatus fetchRun = 0"
  then show "getChangedFiles opts (shell opts fetchRun diffRun keeps)
          = (changedOf (grepLines keeps (stdout diffRun)), [])"
    using fetch_is_not_diff[of opts]
    by (simp add: getChangedFiles_def shell_def changedOf_def Let_def)
next
  assume "exitStatus fetchRun = 0 \<and> exitStatus diffRun \<noteq> 0 \<and> stdout diffRun = []"
  then show "getChangedFiles opts (shell opts fetchRun diffRun keeps) = ([], [])"
    using fetch_is_not_diff[of opts]
    by (simp add: getChangedFiles_def shell_def Let_def grepLines_Nil trim_Nil)
qed

theorem thrown_failure_is_warned_masked_diff_failure_is_not_witness:
  "gitFetchFails (fetchCommand defaultOptions) = Inl ''Command failed: git fetch origin main:main''
   \<and> getChangedFiles defaultOptions gitFetchFails
       = ([], [FailedToGetChangedFiles ''Command failed: git fetch origin main:main''])
   \<and> fst (main defaultOptions (Parsed coverageAB) gitFetchFails everyFileExists resolveInRepo) = 0
   \<and> exitStatus noMergeBase \<noteq> 0
   \<and> getChangedFiles defaultOptions (shell defaultOptions noMergeBase noMergeBase keepsSource)
       = ([], [FailedToGetChangedFiles (commandFailed (fetchCommand defaultOptions) noMergeBase)])
   \<and> exitStatus fetchSucceeds = 0 \<and> stdout noMergeBase = []
   \<and> getChangedFiles defaultOptions (shell defaultOptions fetchSucceeds noMergeBase keepsSource)
       = ([], [])"
proof -
  have f: "gitFetchFails (fetchCommand defaultOptions)
             = Inl ''Command failed: git fetch origin main:main''"
    by (simp add: gitFetchFails_def fetchCommand_def defaultOptions_def)
  have o: "\<not> global defaultOptions \<and> changedFiles defaultOptions"
    by (simp add: defaultOptions_def)
  have n: "exitStatus noMergeBase \<noteq> 0" "stdout noMergeBase = []"
    by (simp_all add: noMergeBase_def)
  have s: "exitStatus fetchSucceeds = 0" by (simp add: fetchSucceeds_def)
  show ?thesis
    using thrown_failure_is_warned_masked_diff_failure_is_not[where execSync = gitFetchFails
        and opts = defaultOptions and error = "''Command failed: git fetch origin main:main''"
        and coverage = coverageAB and existsSync = everyFileExists and resolve = resolveInRepo
        and fetchRun = noMergeBase and diffRun = noMergeBase and keeps = keepsSource]
      thrown_failure_is_warned_masked_diff_failure_is_not[where execSync = gitFetchFails
        and opts = defaultOptions and error = "''Command failed: git fetch origin main:main''"
        and coverage = coverageAB and existsSync = everyFileExists and resolve = resolveInRepo
        and fetchRun = fetchSucceeds and diffRun = noMergeBase and keeps = keepsSource]
      f o n s
    by (simp add: grepLines_Nil changedOf_def trim_Nil)
qed

text \<open>
  Claim C8 as stated fails for a failure of \<open>git diff\<close>: when the two references have
  no merge base it ends with status 128 and writes only to its error stream; the
  changed-file set is empty and the console has no warning.
\<close>

theorem failed_diff_gives_no_warning:
  "exitStatus fetchSucceeds = 0 \<and> exitStatus noMergeBase = 128
   \<and> getChangedFiles defaultOptions (shell defaultOptions fetchSucceeds noMergeBase keepsSource)
       = ([], [])
   \<and> main defaultOptions (Parsed coverageAB)
         (shell defaultOptions fetchSucceeds noMergeBase keepsSource) everyFileExists resolveInRepo
       = (0, [CHANGED_FILES_COVERAGE NA,
              CHANGED_FILES_DETAILS
                \<lparr>actual = NA, required = 20, reportStatus = Failed,
                 details = Inr (NoFilesChanged ''.ts,.tsx,.js,.jsx'' ''src/'')\<rparr>,
              COVERAGE_CHECK_FAILED True])"
proof -
  have a: "exitStatus fetchSucceeds = 0" by (simp add: fetchSucceeds_def)
  have b: "exitStatus noMergeBase = 128" by (simp add: noMergeBase_def)
  have c: "getChangedFiles defaultOptions
             (shell defaultOptions fetchSucceeds noMergeBase keepsSource) = ([], [])"
    by code_simp
  have o: "\<not> global defaultOptions" "changedFiles defaultOptions"
    "filePatterns defaultOptions = ''.ts,.tsx,.js,.jsx''" "sourceDir defaultOptions = ''src/''"
    by (simp_all add: defaultOptions_def)
  have d: "main defaultOptions (Parsed coverageAB)
         (shell defaultOptions fetchSucceeds noMergeBase keepsSource) everyFileExists resolveInRepo
       = (0, [CHANGED_FILES_COVERAGE NA,
              CHANGED_FILES_DETAILS
                \<lparr>actual = NA, required = 20, reportStatus = Failed,
                 details = Inr (NoFilesChanged ''.ts,.tsx,.js,.jsx'' ''src/'')\<rparr>,
              COVERAGE_CHECK_FAILED True])"
    by (simp add: main_def c o calculateChangedFilesCoverage_def generateMarkdownReport_def
          thresholdMet_def mainThresholdMet_def)
  show ?thesis using a b c d by blast
qed

section \<open>Properties of pr-commenter.js\<close>

lemma findExistingComment_eq:
  "findExistingComment optionsTitle ident gh =
     (case fault gh GET_comments of
        Some error \<Rightarrow> ((None, [FailedToFetchExistingComments error]), listed gh)
      | None \<Rightarrow> ((find (selects optionsTitle ident) (comments gh), []), listed gh))"
  by (simp add: findExistingComment_def makeGitHubRequest_def listed_def selects_def[abs_def]
        Let_def split: option.splits)

lemma find_selects_in: "find P cs = Some c \<Longrightarrow> c \<in> set cs"
  by (auto simp add: find_Some_iff)

lemma postOrUpdateComment_create:
  assumes "fst (fst (findExistingComment optionsTitle (commentIdentifier commentData) gh)) = None"
  shows "postOrUpdateComment optionsTitle commentData gh =
     (case fault gh (POST_comment (body commentData)) of
        Some error \<Rightarrow>
          ((Some 1, snd (fst (findExistingComment optionsTitle (commentIdentifier commentData) gh))
                     @ [FailedToPostOrUpdateComment error]),
           gh\<lparr>requests := requests gh @ [GET_comments, POST_comment (body commentData)]\<rparr>)
      | None \<Rightarrow>
          ((None, snd (fst (findExistingComment optionsTitle (commentIdentifier commentData) gh))
                    @ [CreatedNewComment (title commentData)]),
           gh\<lparr>requests := requests gh @ [GET_comments, POST_comment (body commentData)],
              comments := comments gh @ [\<lparr>comment_id = nextId gh, comment_body = body commentData\<rparr>],
              nextId := nextId gh + 1\<rparr>))"
  using assms
  by (auto simp add: postOrUpdateComment_def findExistingComment_eq listed_def
        makeGitHubRequest_def Let_def split: option.splits)

lemma postOrUpdateComment_update:
  assumes "fst (fst (findExistingComment optionsTitle (commentIdentifier commentData) gh)) = Some c"
  shows "fault gh GET_comments = None \<and> c \<in> set (comments gh) \<and>
     postOrUpdateComment optionsTitle commentData gh =
     (case fault gh (PATCH_comment (comment_id c) (body commentData)) of
        Some error \<Rightarrow>
          ((Some 1, [FailedToPostOrUpdateComment error]),
           gh\<lparr>requests := requests gh
                  @ [GET_comments, PATCH_comment (comment_id c) (body commentData)]\<rparr>)
      | None \<Rightarrow>
          ((None, [UpdatedExistingComment (title commentData)]),
           gh\<lparr>requests := requests gh
                  @ [GET_comments, PATCH_comment (comment_id c) (body commentData)],
              comments := map (\<lambda>x. if comment_id x = comment_id c
                                     then x\<lparr>comment_body := body commentData\<rparr> else x)
                            (comments gh)\<rparr>))"
proof -
  from assms have g: "fault gh GET_comments = None"
    and f: "find (selects optionsTitle (commentIdentifier commentData)) (comments gh) = Some c"
    by (auto simp add: findExistingComment_eq split: option.splits)
  from f have m: "c \<in> set (comments gh)" by (rule find_selects_in)
  then have i: "comment_id c \<in> comment_id ` set (comments gh)" by simp
  show ?thesis
    using g f m i
    by (auto simp add: postOrUpdateComment_def findExistingComment_eq listed_def
          makeGitHubRequest_def Let_def split: option.splits)
qed

lemma indexOf_None: "indexOf xs x = None \<longleftrightarrow> x \<notin> set xs"
  by (induction xs) auto

lemma getArgValue_absent: "argName \<notin> set args \<Longrightarrow> getArgValue args argName = None"
  by (simp add: getArgValue_def indexOf_None[THEN iffD2])

lemma upsert_twice:
  assumes "fault gh = (\<lambda>r. None)" and "comments gh = []"
  shows "comments (snd (postOrUpdateComment t2 d2 (snd (postOrUpdateComment t1 d1 gh)))) =
     (if selects t2 (commentIdentifier d2) \<lparr>comment_id = nextId gh, comment_body = body d1\<rparr>
      then [\<lparr>comment_id = nextId gh, comment_body = body d2\<rparr>]
      else [\<lparr>comment_id = nextId gh, comment_body = body d1\<rparr>,
            \<lparr>comment_id = nextId gh + 1, comment_body = body d2\<rparr>])"
  using assms
  by (simp add: postOrUpdateComment_def findExistingComment_eq listed_def makeGitHubRequest_def
        Let_def selects_def)

text \<open>
  Claim C4, amended. A run with valid options makes exactly two requests and repeats
  none: the list request, then one create or one update. A failure of the create or of
  the update is fatal: the run prints the error and exits with status 1, and the
  comments are unchanged. A failure of the list request is not fatal: a warning is
  printed, the comment is taken to be absent and a create is made; the exit status is
  0 when that create succeeds.
\<close>

theorem mutation_failure_is_fatal_list_failure_is_not:
  assumes "args \<noteq> []"
    and "validateOptions env (parseOptions args) = None"
    and "commentFor parseDetails (parseOptions args) = Inr commentData"
  shows "case commenterMain env parseDetails args gh of
     ((code, out), gh') \<Rightarrow>
       (\<exists>m. requests gh' = requests gh @ [GET_comments, m]
          \<and> (m = POST_comment (body commentData)
               \<or> (\<exists>c \<in> set (comments gh). m = PATCH_comment (comment_id c) (body commentData)))
          \<and> (\<forall>error. fault gh m = Some error \<longrightarrow>
                 code = 1 \<and> last out = FailedToPostOrUpdateComment error
                 \<and> comments gh' = comments gh)
          \<and> (fault gh m = None \<longrightarrow> code = 0)
          \<and> (\<forall>error. fault gh GET_comments = Some error \<longrightarrow>
                 m = POST_comment (body commentData)
                 \<and> hd out = FailedToFetchExistingComments error))"
proof -
  define t where "t = optTitle (parseOptions args)"
  have main: "commenterMain env parseDetails args gh =
      (case postOrUpdateComment t commentData gh of
         ((Some code, out), gh') \<Rightarrow> ((code, out), gh')
       | ((None, out), gh') \<Rightarrow> ((0, out), gh'))"
    using assms by (simp add: commenterMain_def t_def Let_def)
  show ?thesis
  proof (cases "fst (fst (findExistingComment t (commentIdentifier commentData) gh))")
    case None
    note p = postOrUpdateComment_create[OF None]
    show ?thesis
    proof (cases "fault gh (POST_comment (body commentData))")
      case None
      show ?thesis unfolding main p
        by (simp add: None findExistingComment_eq split: option.splits)
    next
      case (Some error)
      show ?thesis unfolding main p
        by (simp add: Some findExistingComment_eq split: option.splits)
    qed
  next
    case (Some c)
    note u = postOrUpdateComment_update[OF Some]
    from u have g: "fault gh GET_comments = None" and c: "c \<in> set (comments gh)" by simp_all
    from u have p: "postOrUpdateComment t commentData gh =
     (case fault gh (PATCH_comment (comment_id c) (body commentData)) of
        Some error \<Rightarrow>
          ((Some 1, [FailedToPostOrUpdateComment error]),
           gh\<lparr>requests := requests gh
                  @ [GET_comments, PATCH_comment (comment_id c) (body commentData)]\<rparr>)
      | None \<Rightarrow>
          ((None, [UpdatedExistingComment (title commentData)]),
           gh\<lparr>requests := requests gh
                  @ [GET_comments, PATCH_comment (comment_id c) (body commentData)],
              comments := map (\<lambda>x. if comment_id x = comment_id c
                                     then x\<lparr>comment_body := body commentData\<rparr> else x)
                            (comments gh)\<rparr>))" by simp
    show ?thesis
    proof (cases "fault gh (PATCH_comment (comment_id c) (body commentData))")
      case None
      show ?thesis unfolding main p using c by (auto simp add: None g)
    next
      case (Some error)
      show ?thesis unfolding main p using c by (auto simp add: Some g)
    qed
  qed
qed

theorem mutation_failure_is_fatal_list_failure_is_not_witness:
  "coverageArgs \<noteq> []
   \<and> validateOptions exampleEnv (parseOptions coverageArgs) = None
   \<and> commentFor noDetailsParser (parseOptions coverageArgs)
       = Inr (generateCoverageComment (Some ''85.5'') (Some ''90.2'') None)
   \<and> fault createFails (POST_comment coverageBody) = Some ''GitHub API error: 403 Forbidden''
   \<and> fst (fst (commenterMain exampleEnv noDetailsParser coverageArgs createFails)) = 1
   \<and> requests (snd (commenterMain exampleEnv noDetailsParser coverageArgs createFails))
       = [GET_comments, POST_comment coverageBody]"
proof -
  have a: "coverageArgs \<noteq> []" by (simp add: coverageArgs_def)
  have v: "validateOptions exampleEnv (parseOptions coverageArgs) = None" by code_simp
  have c: "commentFor noDetailsParser (parseOptions coverageArgs)
       = Inr (generateCoverageComment (Some ''85.5'') (Some ''90.2'') None)" by code_simp
  have f: "\<And>b. fault createFails (POST_comment b) = Some ''GitHub API error: 403 Forbidden''"
    by (simp add: createFails_def emptyPullRequest_def)
  have e: "comments createFails = []" "requests createFails = []"
    by (simp_all add: createFails_def emptyPullRequest_def)
  show ?thesis
    using mutation_failure_is_fatal_list_failure_is_not[OF a v c, where gh = createFails]
      a v c f e
    by (auto simp add: coverageBody_def split: prod.splits)
qed

text \<open>
  Claim C4 as stated fails for the list request: when it is refused, the run prints a
  warning, creates a comment and exits with status 0.
\<close>

theorem list_failure_is_not_fatal:
  "fault unauthorizedList GET_comments = Some ''GitHub API error: 401 Bad credentials''
   \<and> fst (commenterMain exampleEnv noDetailsParser coverageArgs unauthorizedList)
       = (0, [FailedToFetchExistingComments ''GitHub API error: 401 Bad credentials'',
              CreatedNewComment (emoji_bar_chart @ '' Test Coverage Report'')])
   \<and> comments (snd (commenterMain exampleEnv noDetailsParser coverageArgs unauthorizedList))
       = [\<lparr>comment_id = 1, comment_body = coverageBody\<rparr>]"
proof -
  have a: "fault unauthorizedList GET_comments = Some ''GitHub API error: 401 Bad credentials''"
    by (simp add: unauthorizedList_def listFails_def)
  have b: "fst (commenterMain exampleEnv noDetailsParser coverageArgs unauthorizedList)
       = (0, [FailedToFetchExistingComments ''GitHub API error: 401 Bad credentials'',
              CreatedNewComment (emoji_bar_chart @ '' Test Coverage Report'')])"
    by code_simp
  have c: "comments (snd (commenterMain exampleEnv noDetailsParser coverageArgs unauthorizedList))
       = [\<lparr>comment_id = 1, comment_body = coverageBody\<rparr>]"
    by code_simp
  show ?thesis using a b c by blast
qed

text \<open>
  Claim C2 fails on the code. The identifier \<open>test-coverage\<close> does not occur in the
  body that \<open>generateCoverageComment\<close> builds, and without a \<open>--title\<close> flag the
  fallback looks for the text \<open>null\<close>. Two runs of the first example of the usage
  text on a pull request without comments therefore make two create requests: the
  second run finds no comment to update, and two comments remain.
\<close>

theorem second_run_posts_a_second_comment:
  "commentIdentifier (generateCoverageComment (Some ''85.5'') (Some ''90.2'') None) = ''test-coverage''
   \<and> \<not> str_includes coverageBody ''test-coverage''
   \<and> comments (snd (commenterMain exampleEnv noDetailsParser coverageArgs emptyPullRequest))
       = [\<lparr>comment_id = 1, comment_body = coverageBody\<rparr>]
   \<and> fst (commenterMain exampleEnv noDetailsParser coverageArgsLater
            (snd (commenterMain exampleEnv noDetailsParser coverageArgs emptyPullRequest)))
       = (0, [CreatedNewComment (emoji_bar_chart @ '' Test Coverage Report'')])
   \<and> requests (snd (commenterMain exampleEnv noDetailsParser coverageArgsLater
            (snd (commenterMain exampleEnv noDetailsParser coverageArgs emptyPullRequest))))
       = [GET_comments, POST_comment coverageBody, GET_comments, POST_comment coverageBodyLater]
   \<and> comments (snd (commenterMain exampleEnv noDetailsParser coverageArgsLater
            (snd (commenterMain exampleEnv noDetailsParser coverageArgs emptyPullRequest))))
       = [\<lparr>comment_id = 1, comment_body = coverageBody\<rparr>,
          \<lparr>comment_id = 2, comment_body = coverageBodyLater\<rparr>]"
proof -
  have a: "commentIdentifier (generateCoverageComment (Some ''85.5'') (Some ''90.2'') None)
             = ''test-coverage''"
    by (simp add: generateCoverageComment_def)
  have b: "\<not> str_includes coverageBody ''test-coverage''" by code_simp
  have c: "comments (snd (commenterMain exampleEnv noDetailsParser coverageArgs emptyPullRequest))
       = [\<lparr>comment_id = 1, comment_body = coverageBody\<rparr>]" by code_simp
  have d: "fst (commenterMain exampleEnv noDetailsParser coverageArgsLater
            (snd (commenterMain exampleEnv noDetailsParser coverageArgs emptyPullRequest)))
       = (0, [CreatedNewComment (emoji_bar_chart @ '' Test Coverage Report'')])" by code_simp
  have e: "requests (snd (commenterMain exampleEnv noDetailsParser coverageArgsLater
            (snd (commenterMain exampleEnv noDetailsParser coverageArgs emptyPullRequest))))
       = [GET_comments, POST_comment coverageBody, GET_comments, POST_comment coverageBodyLater]"
    by code_simp
  have f: "comments (snd (commenterMain exampleEnv noDetailsParser coverageArgsLater
            (snd (commenterMain exampleEnv noDetailsParser coverageArgs emptyPullRequest))))
       = [\<lparr>comment_id = 1, comment_body = coverageBody\<rparr>,
          \<lparr>comment_id = 2, comment_body = coverageBodyLater\<rparr>]" by code_simp
  show ?thesis using a b c d e f by blast
qed

text \<open>
  Claim C10. The comment selected is the first whose body contains the identifier or
  the string form of the \<open>--title\<close> flag, which is \<open>null\<close> when the flag is absent.
  So a run for the coverage report overwrites an end-to-end report whose body contains
  \<open>null\<close>, and likewise the comment of a person that contains it.
\<close>

theorem title_fallback_selects_other_comments:
  "(fault gh GET_comments = None \<longrightarrow>
      fst (fst (findExistingComment (optTitle (parseOptions args)) ident gh))
        = find (\<lambda>c. str_includes (comment_body c) ident
                     \<or> str_includes (comment_body c)
                          (case getArgValue args ''--title'' of None \<Rightarrow> ''null'' | Some t \<Rightarrow> t))
            (comments gh))
   \<and> (''--title'' \<notin> set args \<longrightarrow> ToString (optTitle (parseOptions args)) = ''null'')
   \<and> comments (snd (commenterMain exampleEnv noDetailsParser e2eArgs emptyPullRequest))
       = [\<lparr>comment_id = 1, comment_body = ''E2E failed: cannot read properties of null''\<rparr>]
   \<and> requests (snd (commenterMain exampleEnv noDetailsParser coverageArgs
            (snd (commenterMain exampleEnv noDetailsParser e2eArgs emptyPullRequest))))
       = [GET_comments, POST_comment ''E2E failed: cannot read properties of null'',
          GET_comments, PATCH_comment 1 coverageBody]
   \<and> comments (snd (commenterMain exampleEnv noDetailsParser coverageArgs
            (snd (commenterMain exampleEnv noDetailsParser e2eArgs emptyPullRequest))))
       = [\<lparr>comment_id = 1, comment_body = coverageBody\<rparr>]
   \<and> comments (snd (commenterMain exampleEnv noDetailsParser coverageArgs discussedPullRequest))
       = [\<lparr>comment_id = 41, comment_body = coverageBody\<rparr>]"
proof -
  have g: "fault gh GET_comments = None \<longrightarrow>
      fst (fst (findExistingComment (optTitle (parseOptions args)) ident gh))
        = find (\<lambda>c. str_includes (comment_body c) ident
                     \<or> str_includes (comment_body c)
                          (case getArgValue args ''--title'' of None \<Rightarrow> ''null'' | Some t \<Rightarrow> t))
            (comments gh)"
    by (simp add: findExistingComment_eq selects_def[abs_def] ToString_def parseOptions_def)
  have n: "''--title'' \<notin> set args \<longrightarrow> ToString (optTitle (parseOptions args)) = ''null''"
    by (simp add: getArgValue_absent ToString_def parseOptions_def)
  have a: "comments (snd (commenterMain exampleEnv noDetailsParser e2eArgs emptyPullRequest))
       = [\<lparr>comment_id = 1, comment_body = ''E2E failed: cannot read properties of null''\<rparr>]"
    by code_simp
  have b: "requests (snd (commenterMain exampleEnv noDetailsParser coverageArgs
            (snd (commenterMain exampleEnv noDetailsParser e2eArgs emptyPullRequest))))
       = [GET_comments, POST_comment ''E2E failed: cannot read properties of null'',
          GET_comments, PATCH_comment 1 coverageBody]"
    by code_simp
  have c: "comments (snd (commenterMain exampleEnv noDetailsParser coverageArgs
            (snd (commenterMain exampleEnv noDetailsParser e2eArgs emptyPullRequest))))
       = [\<lparr>comment_id = 1, comment_body = coverageBody\<rparr>]"
    by code_simp
  have d: "comments (snd (commenterMain exampleEnv noDetailsParser coverageArgs discussedPullRequest))
       = [\<lparr>comment_id = 41, comment_body = coverageBody\<rparr>]"
    by code_simp
  show ?thesis using g n a b c d by blast
qed

theorem title_fallback_selects_other_comments_witness:
  "fault discussedPullRequest GET_comments = None
   \<and> ''--title'' \<notin> set coverageArgs
   \<and> \<not> str_includes ''Please add a null check here.'' ''test-coverage''
   \<and> fst (fst (findExistingComment (optTitle (parseOptions coverageArgs)) ''test-coverage''
                  discussedPullRequest))
       = Some \<lparr>comment_id = 41, comment_body = ''Please add a null check here.''\<rparr>"
proof -
  have f: "fault discussedPullRequest GET_comments = None" by (simp add: discussedPullRequest_def)
  have t: "''--title'' \<notin> set coverageArgs" by (simp add: coverageArgs_def)
  have g: "getArgValue coverageArgs ''--title'' = None" by code_simp
  have i: "\<not> str_includes ''Please add a null check here.'' ''test-coverage''" by code_simp
  have j: "str_includes ''Please add a null check here.'' ''null''" by code_simp
  have c: "comments discussedPullRequest
             = [\<lparr>comment_id = 41, comment_body = ''Please add a null check here.''\<rparr>]"
    by (simp add: discussedPullRequest_def)
  show ?thesis
    using title_fallback_selects_other_comments[where gh = discussedPullRequest
        and args = coverageArgs and ident = "''test-coverage''"] f t
    by (simp add: g i j c)
qed

end
